theory Spec2Isabelle
  imports Complex_Main "HOL-Library.Sublist"
begin

section \<open>The platform: ECMAScript time values and the Date object\<close>

text \<open>
  \<open>renderCalendar\<close> in \<open>legacy-flask/static/script.js\<close> reads the calendar through the
  built-in \<open>Date\<close> object. Its operations are modelled after the abstract operations of
  ECMA-262 (section "Date Objects"), with the same names. A time value is an integer number
  of milliseconds since 1970-01-01T00:00:00Z; the invalid date (\<open>NaN\<close>) is \<open>None\<close>. All time
  values in range are integers below \<open>2^53\<close>, so the doubles of the engine represent them
  exactly and \<open>int\<close> is faithful.
\<close>

definition msPerDay :: int where
  "msPerDay = 86400000"

definition Day :: "int \<Rightarrow> int" where
  "Day t = t div msPerDay"

definition TimeWithinDay :: "int \<Rightarrow> int" where
  "TimeWithinDay t = t mod msPerDay"

definition DaysInYear :: "int \<Rightarrow> int" where
  "DaysInYear y =
     (if y mod 4 \<noteq> 0 then 365
      else if y mod 100 \<noteq> 0 then 366
      else if y mod 400 \<noteq> 0 then 365
      else 366)"

definition DayFromYear :: "int \<Rightarrow> int" where
  "DayFromYear y =
     365 * (y - 1970) + (y - 1969) div 4 - (y - 1901) div 100 + (y - 1601) div 400"

definition TimeFromYear :: "int \<Rightarrow> int" where
  "TimeFromYear y = msPerDay * DayFromYear y"

text \<open>
  \<open>YearFromTime t\<close> is "the largest integer \<open>y\<close> such that \<open>TimeFromYear y \<le> t\<close>". It is
  computed by a downward search from a year that is not below the answer.
\<close>

function year_search :: "int \<Rightarrow> int \<Rightarrow> int" where
  "year_search d y = (if DayFromYear y \<le> d then y else year_search d (y - 1))"
  by pat_completeness auto
termination
proof (relation "measure (\<lambda>(d, y). nat (DayFromYear y - d))")
  show "wf (measure (\<lambda>(d, y). nat (DayFromYear y - d)))"
    by simp
next
  fix d y :: int
  assume a: "\<not> DayFromYear y \<le> d"
  have 1: "(y - 1 - 1969) div 4 \<le> (y - 1969) div 4"
    by (rule zdiv_mono1) simp_all
  have 2: "(y - 1901) div 100 \<le> (y - 1 - 1901) div 100 + 1"
    by linarith
  have 3: "(y - 1 - 1601) div 400 \<le> (y - 1601) div 400"
    by (rule zdiv_mono1) simp_all
  have "DayFromYear (y - 1) < DayFromYear y"
    unfolding DayFromYear_def using 1 2 3 by simp
  with a show "((d, y - 1), (d, y)) \<in> measure (\<lambda>(d, y). nat (DayFromYear y - d))"
    by simp
qed

declare year_search.simps [simp del]

definition YearFromDay :: "int \<Rightarrow> int" where
  "YearFromDay d =
     year_search d (1970 + (if 0 \<le> d then d div 365 else d div 366))"

definition YearFromTime :: "int \<Rightarrow> int" where
  "YearFromTime t = YearFromDay (Day t)"

definition InLeapYear :: "int \<Rightarrow> bool" where
  "InLeapYear t = (DaysInYear (YearFromTime t) = 366)"

definition DayWithinYear :: "int \<Rightarrow> int" where
  "DayWithinYear t = Day t - DayFromYear (YearFromTime t)"

text \<open>The first day within the year of month \<open>m\<close> (0 = January); \<open>l\<close> is 1 in a leap year.\<close>

definition month_start :: "int \<Rightarrow> int \<Rightarrow> int" where
  "month_start l m =
     (if m = 0 then 0 else if m = 1 then 31 else if m = 2 then 59 + l
      else if m = 3 then 90 + l else if m = 4 then 120 + l else if m = 5 then 151 + l
      else if m = 6 then 181 + l else if m = 7 then 212 + l else if m = 8 then 243 + l
      else if m = 9 then 273 + l else if m = 10 then 304 + l else 334 + l)"

definition leap_days :: "int \<Rightarrow> int" where
  "leap_days y = (if DaysInYear y = 366 then 1 else 0)"

definition MonthFromTime :: "int \<Rightarrow> int" where
  "MonthFromTime t =
     (let w = DayWithinYear t; l = leap_days (YearFromTime t) in
      if w < 31 then 0 else if w < 59 + l then 1 else if w < 90 + l then 2
      else if w < 120 + l then 3 else if w < 151 + l then 4 else if w < 181 + l then 5
      else if w < 212 + l then 6 else if w < 243 + l then 7 else if w < 273 + l then 8
      else if w < 304 + l then 9 else if w < 334 + l then 10 else 11)"

definition DateFromTime :: "int \<Rightarrow> int" where
  "DateFromTime t =
     DayWithinYear t - month_start (leap_days (YearFromTime t)) (MonthFromTime t) + 1"

definition WeekDay :: "int \<Rightarrow> int" where
  "WeekDay t = (Day t + 4) mod 7"

text \<open>
  \<open>MakeDay year month date\<close>: the day number of the \<open>date\<close>-th day of the month, months
  beyond 0..11 carrying into the year, dates beyond the month carrying into the next days.
\<close>

definition MakeDay :: "int \<Rightarrow> int \<Rightarrow> int \<Rightarrow> int" where
  "MakeDay year month date =
     (let ym = year + month div 12; mn = month mod 12 in
      DayFromYear ym + month_start (leap_days ym) mn + date - 1)"

definition MakeDate :: "int \<Rightarrow> int \<Rightarrow> int" where
  "MakeDate day time = day * msPerDay + time"

definition TimeClip :: "int \<Rightarrow> int option" where
  "TimeClip t = (if \<bar>t\<bar> > 8640000000000000 then None else Some t)"


subsection \<open>The Date object in the viewer's time zone\<close>

text \<open>
  What the engine and the browser decide is collected in one record: the reading of the
  clock (the time value of \<open>new Date()\<close>), the offset of the viewer's local time from UTC in
  milliseconds (\<open>LocalTZA\<close>, taken as fixed over the times considered), the month names of
  the viewer's locale, and the printing of numbers that are not integers.
\<close>

record platform =
  clock :: int
  tza :: int
  month_long :: "int \<Rightarrow> string"
  frac_toString :: "rat \<Rightarrow> string"

definition LocalTime :: "platform \<Rightarrow> int \<Rightarrow> int" where
  "LocalTime p t = t + tza p"

definition UTC :: "platform \<Rightarrow> int \<Rightarrow> int" where
  "UTC p t = t - tza p"

definition getFullYear :: "platform \<Rightarrow> int \<Rightarrow> int" where
  "getFullYear p t = YearFromTime (LocalTime p t)"

definition getMonth :: "platform \<Rightarrow> int \<Rightarrow> int" where
  "getMonth p t = MonthFromTime (LocalTime p t)"

definition getDate :: "platform \<Rightarrow> int \<Rightarrow> int" where
  "getDate p t = DateFromTime (LocalTime p t)"

definition getDay :: "platform \<Rightarrow> int \<Rightarrow> int" where
  "getDay p t = WeekDay (LocalTime p t)"

text \<open>
  \<open>new Date(year, month, date)\<close>: the fields are read in local time, and a year from 0 to
  99 stands for 1900 + year. The result is \<open>None\<close> (Invalid Date) outside the range of
  time values.
\<close>

definition new_Date_ymd :: "platform \<Rightarrow> int \<Rightarrow> int \<Rightarrow> int \<Rightarrow> int option" where
  "new_Date_ymd p year month date =
     (let yr = (if 0 \<le> year \<and> year \<le> 99 then 1900 + year else year) in
      TimeClip (UTC p (MakeDate (MakeDay yr month date) 0)))"

subsection \<open>Decimal digits\<close>

fun digits :: "nat \<Rightarrow> string" where
  "digits n =
     (if n < 10 then [''0123456789'' ! n] else digits (n div 10) @ [''0123456789'' ! (n mod 10)])"

declare digits.simps [simp del]

definition digit_value :: "char \<Rightarrow> nat option" where
  "digit_value c =
     (let n = (of_char c :: nat) in if 48 \<le> n \<and> n \<le> 57 then Some (n - 48) else None)"

fun number_of_digits :: "nat \<Rightarrow> string \<Rightarrow> nat option" where
  "number_of_digits acc [] = Some acc"
| "number_of_digits acc (c # cs) =
     (case digit_value c of
        None \<Rightarrow> None
      | Some d \<Rightarrow> number_of_digits (10 * acc + d) cs)"

text \<open>
  \<open>new Date(string)\<close> for the date-only form \<open>YYYY-MM-DD\<close> of the ECMAScript date-time
  string format, the form of \<open>CalendarEvent.date\<close>: the date is read as midnight UTC. A
  string of another shape, or naming a day that the month does not have, is \<open>None\<close> here
  (the standard leaves it to the engine).
\<close>

definition Date_parse :: "string \<Rightarrow> int option" where
  "Date_parse s =
     (if length s = 10 \<and> s ! 4 = CHR ''-'' \<and> s ! 7 = CHR ''-'' then
        (case (number_of_digits 0 (take 4 s), number_of_digits 0 (take 2 (drop 5 s)),
               number_of_digits 0 (drop 8 s)) of
           (Some y, Some mo, Some d) \<Rightarrow>
             (if 1 \<le> mo \<and> mo \<le> 12 \<and> 1 \<le> d
                 \<and> MakeDay (int y) (int mo - 1) (int d) < MakeDay (int y) (int mo) 1
              then TimeClip (MakeDate (MakeDay (int y) (int mo - 1) (int d)) 0)
              else None)
         | _ \<Rightarrow> None)
      else None)"

subsection \<open>Numbers, JSON values and responses\<close>

text \<open>
  A number is modelled by its exact value. \<open>Number::toString\<close> prints an integer below
  \<open>10^21\<close> in decimal; the shortest round-trip printing of the other numbers is the
  engine's (\<open>frac_toString\<close>). \<open>toFixed(2)\<close> follows \<open>Number.prototype.toFixed\<close>.
\<close>

definition Number_toString :: "platform \<Rightarrow> rat \<Rightarrow> string" where
  "Number_toString p x =
     (if of_int \<lfloor>x\<rfloor> = x \<and> \<bar>x\<bar> < 10 ^ 21
      then (if x < 0 then ''-'' else []) @ digits (nat \<lfloor>\<bar>x\<bar>\<rfloor>)
      else frac_toString p x)"

definition toFixed2 :: "platform \<Rightarrow> rat \<Rightarrow> string" where
  "toFixed2 p x =
     (if 10 ^ 21 \<le> \<bar>x\<bar> then Number_toString p x
      else
        (let n = nat \<lfloor>\<bar>x\<bar> * 100 + 1 / 2\<rfloor>;
             m = digits n;
             m = (if length m \<le> 2 then replicate (3 - length m) CHR ''0'' @ m else m);
             k = length m
         in (if x < 0 then ''-'' else []) @ take (k - 2) m @ ''.'' @ drop (k - 2) m))"

datatype json =
    JNull
  | JBool bool
  | JNum rat
  | JStr string
  | JArr "json list"
  | JObj "(string \<times> json) list"

datatype js_error = Error string | TypeError | SyntaxError

text \<open>
  Reading a property: \<open>v.k\<close> throws on \<open>null\<close>, finds the member of an object, and is
  \<open>undefined\<close> (\<open>None\<close>) on every other value (none of the property names the client
  reads is a built-in property of a string, number, boolean or array).
\<close>

definition get_prop :: "json \<Rightarrow> string \<Rightarrow> js_error + json option" where
  "get_prop v k =
     (case v of
        JNull \<Rightarrow> Inl TypeError
      | JObj kvs \<Rightarrow> Inr (map_of kvs k)
      | _ \<Rightarrow> Inr None)"

fun truthy :: "json option \<Rightarrow> bool" where
  "truthy None = False"
| "truthy (Some JNull) = False"
| "truthy (Some (JBool b)) = b"
| "truthy (Some (JNum x)) = (x \<noteq> 0)"
| "truthy (Some (JStr s)) = (s \<noteq> [])"
| "truthy (Some (JArr xs)) = True"
| "truthy (Some (JObj kvs)) = True"

text \<open>\<open>v || d\<close> on a property that may be absent.\<close>

definition or_else :: "json option \<Rightarrow> json \<Rightarrow> json" where
  "or_else v d = (case v of Some x \<Rightarrow> (if truthy v then x else d) | None \<Rightarrow> d)"

fun join :: "string \<Rightarrow> string list \<Rightarrow> string" where
  "join sep [] = []"
| "join sep [x] = x"
| "join sep (x # y # ys) = x @ sep @ join sep (y # ys)"

fun js_toString :: "platform \<Rightarrow> json \<Rightarrow> string" where
  "js_toString p JNull = ''null''"
| "js_toString p (JBool b) = (if b then ''true'' else ''false'')"
| "js_toString p (JNum x) = Number_toString p x"
| "js_toString p (JStr s) = s"
| "js_toString p (JArr xs) =
     join '','' (map (\<lambda>x. if x = JNull then [] else js_toString p x) xs)"
| "js_toString p (JObj kvs) = ''[object Object]''"

text \<open>
  The outcome of one \<open>fetch\<close>: the request is rejected (no connection), or a response
  arrives with a status and a body; the body is \<open>None\<close> when \<open>response.json()\<close> rejects it.
\<close>

datatype 'a response = NetworkError | Response nat "'a option"

definition ok :: "'a response \<Rightarrow> bool" where
  "ok r = (case r of NetworkError \<Rightarrow> False | Response st b \<Rightarrow> 200 \<le> st \<and> st \<le> 299)"

record request =
  req_method :: string
  req_url :: string
  req_body :: "json option"

definition GET :: "string \<Rightarrow> request" where
  "GET u = \<lparr>req_method = ''GET'', req_url = u, req_body = None\<rparr>"

section \<open>The dashboard client (class FinanceTracker)\<close>

subsection \<open>The page and the data it shows\<close>

text \<open>
  A DOM element as the client builds it: its class name, the text or markup assigned to
  it, its \<open>title\<close> attribute (the tooltip) and the elements appended to it.
\<close>

datatype element =
  Element (className: string) (content: string) (tooltip: string) (children: "element list")

text \<open>
  Modelled from the spec: the shapes of the data that the server sends. The routes of the
  server are not in the repository; the specification (its data model, and the interface
  the client consumes) gives a calendar event as \<open>{date, title, amount, type}\<close> with an ISO
  date, and a transaction of the recent list as \<open>{store, category, date, amount, type}\<close>,
  where the client provides for the absence of every field but the type. A body of
  another shape is outside the model. The summary and the chart data stay JSON values:
  the client reads them field by field, with defaults.
\<close>

record calendar_event =
  ev_date :: string
  ev_title :: string
  ev_amount :: rat
  ev_type :: string

record transaction =
  tx_store :: "string option"
  tx_category :: "string option"
  tx_date :: "string option"
  tx_amount :: "rat option"
  tx_type :: string

text \<open>A Chart.js instance: the canvas it is bound to, its configuration, and whether
  \<open>destroy()\<close> has released it.\<close>

record chart =
  chart_canvas :: string
  chart_type :: string
  chart_labels :: json
  chart_series :: "(string \<times> json) list"
  destroyed :: bool

text \<open>
  The state of the dashboard: the four summary tiles, the canvases of the page, the field
  \<open>this.charts\<close> (canvas identifier to chart instance, the instance named by its position
  among all instances created so far), the calendar, the list of recent transactions, the
  page-level error banners, the requests sent and the console (the lines written by
  \<open>console.error\<close>).
\<close>

record dashboard =
  total_transactions :: string
  total_income :: string
  total_expenses :: string
  net_amount :: string
  canvases :: "string list"
  charts :: "string \<rightharpoonup> nat"
  chart_instances :: "chart list"
  current_month :: string
  calendar_grid :: "element list"
  recent_transactions :: "element list"
  error_banners :: "string list"
  requests :: "request list"
  console :: "string list"

definition apiBase :: string where
  "apiBase = ''http://localhost:3000/api''"

definition send :: "request \<Rightarrow> dashboard \<Rightarrow> dashboard" where
  "send r s = s\<lparr>requests := requests s @ [r]\<rparr>"

definition console_error :: "string \<Rightarrow> dashboard \<Rightarrow> dashboard" where
  "console_error msg s = s\<lparr>console := console s @ [msg]\<rparr>"

subsection \<open>showLoading, showError, fetchData, testConnection\<close>

definition showLoading :: "dashboard \<Rightarrow> dashboard" where
  "showLoading s =
     s\<lparr>total_transactions := ''Loading...'', total_income := ''Loading...'',
       total_expenses := ''Loading...'', net_amount := ''Loading...''\<rparr>"

definition showError :: "string \<Rightarrow> dashboard \<Rightarrow> dashboard" where
  "showError message s = s\<lparr>error_banners := message # error_banners s\<rparr>"

definition fetchData :: "'a response \<Rightarrow> js_error + 'a" where
  "fetchData r =
     (case r of
        NetworkError \<Rightarrow> Inl TypeError
      | Response st body \<Rightarrow>
          if \<not> ok r then Inl (Error (''HTTP error! status: '' @ digits st))
          else (case body of None \<Rightarrow> Inl SyntaxError | Some v \<Rightarrow> Inr v))"

definition testConnection :: "json response \<Rightarrow> js_error option" where
  "testConnection r =
     (case r of
        Response st (Some v) \<Rightarrow>
          if ok r then None
          else Some (Error
            ''Cannot connect to server. Make sure Flask app is running on port 5000.'')
      | _ \<Rightarrow> Some (Error
            ''Cannot connect to server. Make sure Flask app is running on port 5000.''))"

subsection \<open>loadSummary\<close>

definition summary_defaults :: "dashboard \<Rightarrow> dashboard" where
  "summary_defaults s =
     s\<lparr>total_transactions := ''0'', total_income := ''$0.00'',
       total_expenses := ''$0.00'', net_amount := ''$0.00''\<rparr>"

text \<open>\<open>`$${(v || 0).toFixed(2)}`\<close>: only a number has the method \<open>toFixed\<close>.\<close>

definition money :: "platform \<Rightarrow> json option \<Rightarrow> js_error + string" where
  "money p v =
     (case or_else v (JNum 0) of
        JNum x \<Rightarrow> Inr (''$'' @ toFixed2 p x)
      | _ \<Rightarrow> Inl TypeError)"

text \<open>
  The body of the \<open>try\<close> block of \<open>loadSummary\<close> after the fetch: the four texts, or the
  exception that sends control to the \<open>catch\<close> block. The tiles assigned before an
  exception are overwritten by the \<open>catch\<close> block, which sets all four.
\<close>

definition summary_texts ::
  "platform \<Rightarrow> json \<Rightarrow> js_error + (string \<times> string \<times> string \<times> string)" where
  "summary_texts p summary =
     (case get_prop summary ''error'' of
        Inl e \<Rightarrow> Inl e
      | Inr err \<Rightarrow>
          if truthy err then Inl (Error (js_toString p (or_else err JNull)))
          else
            (case (get_prop summary ''totalTransactions'', get_prop summary ''totalDeposits'',
                   get_prop summary ''totalWithdrawals'', get_prop summary ''netAmount'') of
               (Inr tt, Inr td, Inr tw, Inr na) \<Rightarrow>
                 (case (money p td, money p tw, money p na) of
                    (Inr income, Inr expenses, Inr net) \<Rightarrow>
                      Inr (js_toString p (or_else tt (JNum 0)), income, expenses, net)
                  | _ \<Rightarrow> Inl TypeError)
             | _ \<Rightarrow> Inl TypeError))"

definition loadSummary :: "platform \<Rightarrow> json response \<Rightarrow> dashboard \<Rightarrow> dashboard" where
  "loadSummary p r s =
     (let s = send (GET (apiBase @ ''/summary'')) s in
      case fetchData r of
        Inl e \<Rightarrow> summary_defaults (console_error ''Error loading summary:'' s)
      | Inr summary \<Rightarrow>
          (case summary_texts p summary of
             Inl e \<Rightarrow> summary_defaults (console_error ''Error loading summary:'' s)
           | Inr (tt, income, expenses, net) \<Rightarrow>
               s\<lparr>total_transactions := tt, total_income := income,
                 total_expenses := expenses, net_amount := net\<rparr>))"

subsection \<open>createPieChart, createLineChart, loadCharts\<close>

text \<open>
  \<open>this.charts\<close> is a plain object, so a canvas identifier that names a member of
  \<open>Object.prototype\<close> finds that member, which has no method \<open>destroy\<close>.
\<close>

definition Object_prototype_names :: "string list" where
  "Object_prototype_names =
     [''constructor'', ''hasOwnProperty'', ''isPrototypeOf'', ''propertyIsEnumerable'',
      ''toLocaleString'', ''toString'', ''valueOf'', ''__proto__'', ''__defineGetter__'',
      ''__defineSetter__'', ''__lookupGetter__'', ''__lookupSetter__'']"

definition destroy :: "nat \<Rightarrow> dashboard \<Rightarrow> dashboard" where
  "destroy i s =
     s\<lparr>chart_instances :=
         (chart_instances s)[i := (chart_instances s ! i)\<lparr>destroyed := True\<rparr>]\<rparr>"

text \<open>\<open>this.charts[canvasId] = new Chart(ctx, config)\<close>.\<close>

definition new_Chart :: "chart \<Rightarrow> dashboard \<Rightarrow> dashboard" where
  "new_Chart c s =
     s\<lparr>charts := (charts s)(chart_canvas c \<mapsto> length (chart_instances s)),
       chart_instances := chart_instances s @ [c]\<rparr>"

text \<open>
  The first steps shared by both functions: the canvas is looked up (an exception when
  the page has none of that identifier), then the chart bound before, if any, is destroyed.
\<close>

definition release_canvas :: "string \<Rightarrow> dashboard \<Rightarrow> js_error option \<times> dashboard" where
  "release_canvas canvasId s =
     (if canvasId \<notin> set (canvases s) then (Some TypeError, s)
      else if canvasId \<in> set Object_prototype_names \<and> charts s canvasId = None
      then (Some TypeError, s)
      else
        (case charts s canvasId of
           Some i \<Rightarrow> (None, destroy i s)
         | None \<Rightarrow> (None, s)))"

definition createPieChart ::
  "string \<Rightarrow> string \<Rightarrow> json \<Rightarrow> dashboard \<Rightarrow> js_error option \<times> dashboard" where
  "createPieChart canvasId title data s =
     (case release_canvas canvasId s of
        (Some e, s) \<Rightarrow> (Some e, s)
      | (None, s) \<Rightarrow>
          (case (get_prop data ''labels'', get_prop data ''data'') of
             (Inr labels, Inr values) \<Rightarrow>
               (None,
                new_Chart
                  \<lparr>chart_canvas = canvasId, chart_type = ''pie'',
                   chart_labels = or_else labels (JArr []),
                   chart_series = [([], or_else values (JArr []))],
                   destroyed = False\<rparr> s)
           | _ \<Rightarrow> (Some TypeError, s)))"

definition createLineChart ::
  "string \<Rightarrow> string \<Rightarrow> json \<Rightarrow> dashboard \<Rightarrow> js_error option \<times> dashboard" where
  "createLineChart canvasId title data s =
     (case release_canvas canvasId s of
        (Some e, s) \<Rightarrow> (Some e, s)
      | (None, s) \<Rightarrow>
          (case (get_prop data ''labels'', get_prop data ''income'',
                 get_prop data ''expenses'') of
             (Inr labels, Inr income, Inr expenses) \<Rightarrow>
               (None,
                new_Chart
                  \<lparr>chart_canvas = canvasId, chart_type = ''line'',
                   chart_labels = or_else labels (JArr []),
                   chart_series =
                     [(''Income'', or_else income (JArr [])),
                      (''Expenses'', or_else expenses (JArr []))],
                   destroyed = False\<rparr> s)
           | _ \<Rightarrow> (Some TypeError, s)))"

text \<open>
  \<open>loadCharts\<close>: one \<open>try\<close> block around both charts, and a \<open>catch\<close> block that only
  logs. The request for the trends is sent only when the first chart has been created.
\<close>

definition loadCharts :: "json response \<Rightarrow> json response \<Rightarrow> dashboard \<Rightarrow> dashboard" where
  "loadCharts rc rt s =
     (let s = send (GET (apiBase @ ''/spending-by-category'')) s in
      case fetchData rc of
        Inl e \<Rightarrow> console_error ''Error loading charts:'' s
      | Inr categoryData \<Rightarrow>
          (case createPieChart ''spending-chart'' ''Spending by Category'' categoryData s of
             (Some e, s) \<Rightarrow> console_error ''Error loading charts:'' s
           | (None, s) \<Rightarrow>
               (let s = send (GET (apiBase @ ''/monthly-trends'')) s in
                case fetchData rt of
                  Inl e \<Rightarrow> console_error ''Error loading charts:'' s
                | Inr trendsData \<Rightarrow>
                    (case createLineChart ''trends-chart'' ''Monthly Income vs Expenses''
                            trendsData s of
                       (Some e, s) \<Rightarrow> console_error ''Error loading charts:'' s
                     | (None, s) \<Rightarrow> s))))"

text \<open>The chart instances bound to a canvas that have not been destroyed.\<close>

definition live_charts :: "dashboard \<Rightarrow> string \<Rightarrow> chart list" where
  "live_charts s canvasId =
     filter (\<lambda>c. chart_canvas c = canvasId \<and> \<not> destroyed c) (chart_instances s)"

subsection \<open>renderCalendar, loadCalendar\<close>

definition header_days :: "string list" where
  "header_days = [''Sun'', ''Mon'', ''Tue'', ''Wed'', ''Thu'', ''Fri'', ''Sat'']"

definition dayHeader :: "string \<Rightarrow> element" where
  "dayHeader day = Element ''calendar-header-day'' day [] []"

definition emptyDay :: element where
  "emptyDay = Element ''calendar-day'' [] [] []"

definition eventDiv :: "platform \<Rightarrow> calendar_event \<Rightarrow> element" where
  "eventDiv p event =
     Element (''calendar-event '' @ ev_type event) (ev_title event)
       (ev_title event @ '': $'' @ Number_toString p \<bar>ev_amount event\<bar>) []"

text \<open>
  The predicate of \<open>events.filter\<close>: the event's date string is parsed, and its local
  day, month and year are compared with the cell's. An invalid date matches no cell.
\<close>

definition on_day :: "platform \<Rightarrow> int \<Rightarrow> int \<Rightarrow> int \<Rightarrow> calendar_event \<Rightarrow> bool" where
  "on_day p currentYear currentMonth day event =
     (case Date_parse (ev_date event) of
        None \<Rightarrow> False
      | Some eventDate \<Rightarrow>
          getDate p eventDate = day \<and> getMonth p eventDate = currentMonth
          \<and> getFullYear p eventDate = currentYear)"

definition dayDiv ::
  "platform \<Rightarrow> int \<Rightarrow> int \<Rightarrow> calendar_event list \<Rightarrow> int \<Rightarrow> element" where
  "dayDiv p currentYear currentMonth events day =
     (let dayEvents = filter (on_day p currentYear currentMonth day) events in
      Element (if dayEvents \<noteq> [] then ''calendar-day has-event'' else ''calendar-day'')
        (''<strong>'' @ digits (nat day) @ ''</strong>'') []
        (map (eventDiv p) dayEvents))"

text \<open>
  The grid for the month \<open>currentMonth\<close> of \<open>currentYear\<close>: seven headers, the blank cells
  before the first day, the day cells. The two loops do not run when their bound is \<open>NaN\<close>.
\<close>

definition calendar_cells ::
  "platform \<Rightarrow> int \<Rightarrow> int \<Rightarrow> calendar_event list \<Rightarrow> element list" where
  "calendar_cells p currentYear currentMonth events =
     (let firstDay = map_option (getDay p) (new_Date_ymd p currentYear currentMonth 1);
          daysInMonth =
            map_option (getDate p) (new_Date_ymd p currentYear (currentMonth + 1) 0)
      in map dayHeader header_days
         @ replicate (case firstDay of None \<Rightarrow> 0 | Some n \<Rightarrow> nat n) emptyDay
         @ map (dayDiv p currentYear currentMonth events)
             (case daysInMonth of None \<Rightarrow> [] | Some n \<Rightarrow> [1..n]))"

definition renderCalendar :: "platform \<Rightarrow> calendar_event list \<Rightarrow> dashboard \<Rightarrow> dashboard" where
  "renderCalendar p events s =
     (let now = clock p;
          currentMonth = getMonth p now;
          currentYear = getFullYear p now
      in s\<lparr>current_month :=
             month_long p currentMonth @ '' '' @ Number_toString p (of_int currentYear),
           calendar_grid := calendar_cells p currentYear currentMonth events\<rparr>)"

definition loadCalendar ::
  "platform \<Rightarrow> calendar_event list response \<Rightarrow> dashboard \<Rightarrow> dashboard" where
  "loadCalendar p r s =
     (let s = send (GET (apiBase @ ''/calendar-data'')) s in
      case fetchData r of
        Inl e \<Rightarrow> renderCalendar p [] (console_error ''Error loading calendar:'' s)
      | Inr calendarData \<Rightarrow> renderCalendar p calendarData s)"

subsection \<open>renderTransactions, loadRecentTransactions\<close>

text \<open>
  The placeholder paragraph, and the item of one transaction: its two parts (store with
  category and date, and the signed amount) are recorded as child elements.
\<close>

definition no_transactions :: element where
  "no_transactions = Element [] ''No transactions found'' [] []"

definition text_or :: "string option \<Rightarrow> string \<Rightarrow> string" where
  "text_or v d = (case v of None \<Rightarrow> d | Some x \<Rightarrow> if x = [] then d else x)"

definition bullet :: string where
  "bullet = [char_of (226::nat), char_of (128::nat), char_of (162::nat)]"

definition transactionDiv :: "platform \<Rightarrow> transaction \<Rightarrow> element" where
  "transactionDiv p t =
     Element ''transaction-item'' [] []
       [Element ''transaction-info'' (text_or (tx_store t) ''Unknown'') []
          [Element [] (text_or (tx_category t) ''Uncategorized'' @ '' '' @ bullet @ '' ''
                       @ text_or (tx_date t) ''N/A'') [] []],
        Element (''transaction-amount '' @ tx_type t)
          ((case tx_amount t of None \<Rightarrow> [] | Some a \<Rightarrow> if 0 \<le> a then ''+'' else [])
           @ ''$'' @ toFixed2 p (case tx_amount t of None \<Rightarrow> 0 | Some a \<Rightarrow> \<bar>a\<bar>)) [] []]"

definition renderTransactions :: "platform \<Rightarrow> transaction list \<Rightarrow> dashboard \<Rightarrow> dashboard" where
  "renderTransactions p transactions s =
     (if transactions = [] then s\<lparr>recent_transactions := [no_transactions]\<rparr>
      else s\<lparr>recent_transactions := map (transactionDiv p) transactions\<rparr>)"

definition loadRecentTransactions ::
  "platform \<Rightarrow> transaction list response \<Rightarrow> dashboard \<Rightarrow> dashboard" where
  "loadRecentTransactions p r s =
     (let s = send (GET (apiBase @ ''/recent-transactions'')) s in
      case fetchData r of
        Inl e \<Rightarrow> renderTransactions p [] (console_error ''Error loading transactions:'' s)
      | Inr transactions \<Rightarrow> renderTransactions p transactions s)"

subsection \<open>init\<close>

text \<open>What the server answers to the requests of one run of \<open>init\<close>.\<close>

record replies =
  test_reply :: "json response"
  summary_reply :: "json response"
  spending_reply :: "json response"
  trends_reply :: "json response"
  calendar_reply :: "calendar_event list response"
  recent_reply :: "transaction list response"

definition init :: "platform \<Rightarrow> replies \<Rightarrow> dashboard \<Rightarrow> dashboard" where
  "init p rs s =
     (let s = showLoading s;
          s = send (GET (apiBase @ ''/test'')) s
      in case testConnection (test_reply rs) of
           Some e \<Rightarrow>
             showError ''Failed to load dashboard data. Please check if the server is running.''
               (console_error ''Error initializing dashboard:'' s)
         | None \<Rightarrow>
             (let s = loadSummary p (summary_reply rs) s;
                  s = loadCharts (spending_reply rs) (trends_reply rs) s;
                  s = loadCalendar p (calendar_reply rs) s
              in loadRecentTransactions p (recent_reply rs) s))"

text \<open>The state in which the constructor calls \<open>init\<close>: no chart has been created.\<close>

definition constructed :: "dashboard \<Rightarrow> bool" where
  "constructed s \<longleftrightarrow> chart_instances s = [] \<and> charts s = Map.empty"

subsection \<open>reloadData\<close>

definition reloadData :: "platform \<Rightarrow> json response \<Rightarrow> replies \<Rightarrow> dashboard \<Rightarrow> dashboard" where
  "reloadData p r rs s =
     (let s = send (GET (apiBase @ ''/reload-data'')) s in
      case fetchData r of
        Inl e \<Rightarrow> console_error ''Error reloading data:'' s
      | Inr response \<Rightarrow>
          (case get_prop response ''success'' of
             Inl e \<Rightarrow> console_error ''Error reloading data:'' s
           | Inr success \<Rightarrow> if truthy success then init p rs s else s))"

section \<open>The transaction entry form\<close>

subsection \<open>The form's elements\<close>

text \<open>
  The category \<open><select>\<close>: its options (value and text) in document order and the index
  of the selected one (\<open>None\<close> when nothing is selected).
\<close>

record category_select =
  sel_options :: "(string \<times> string) list"
  sel_index :: "nat option"

record button =
  btn_disabled :: bool
  btn_html :: string

record message_div =
  msg_text :: string
  msg_class :: string

text \<open>
  The page of the form. The submit handler reads the four inputs unguarded, so they are
  part of the page; the submit button and the message area are looked up with a guard
  and may be absent.
\<close>

record form_page =
  title_input :: string
  category :: category_select
  amount_input :: string
  date_input :: string
  submitBtn :: "button option"
  messageDiv :: "message_div option"
  form_requests :: "request list"
  form_console :: "string list"

definition NEW_CATEGORY :: string where
  "NEW_CATEGORY = ''NEW_CATEGORY''"

definition newOption :: "string \<times> string" where
  "newOption = (NEW_CATEGORY, ''+ Add New Category'')"

definition select_value :: "category_select \<Rightarrow> string" where
  "select_value sel =
     (case sel_index sel of
        None \<Rightarrow> []
      | Some i \<Rightarrow> if i < length (sel_options sel) then fst (sel_options sel ! i) else [])"

fun index_of :: "string \<Rightarrow> (string \<times> string) list \<Rightarrow> nat option" where
  "index_of v [] = None"
| "index_of v (x # xs) = (if fst x = v then Some 0 else map_option Suc (index_of v xs))"

text \<open>\<open>select.value = v\<close>: the first option of that value is selected, or none at all.\<close>

definition set_value :: "string \<Rightarrow> category_select \<Rightarrow> category_select" where
  "set_value v sel = sel\<lparr>sel_index := index_of v (sel_options sel)\<rparr>"

text \<open>\<open>String.prototype.trim\<close>, on the white space among the characters of a \<open>string\<close>.\<close>

definition WhiteSpace :: "char \<Rightarrow> bool" where
  "WhiteSpace c \<longleftrightarrow> (of_char c :: nat) \<in> {9, 10, 11, 12, 13, 32, 160}"

definition trim :: "string \<Rightarrow> string" where
  "trim s = rev (dropWhile WhiteSpace (rev (dropWhile WhiteSpace s)))"

text \<open>\<open>parent.insertBefore(x, parent.lastElementChild)\<close>; with no child, \<open>x\<close> is appended.\<close>

definition insertBefore_last :: "'a \<Rightarrow> 'a list \<Rightarrow> 'a list" where
  "insertBefore_last x xs = (if xs = [] then [x] else butlast xs @ [x, last xs])"

subsection \<open>setTodayDate, loadCategories, showMessage\<close>

definition pad2 :: "string \<Rightarrow> string" where
  "pad2 s = replicate (2 - length s) CHR ''0'' @ s"

definition today :: "platform \<Rightarrow> string" where
  "today p =
     Number_toString p (of_int (getFullYear p (clock p))) @ ''-''
     @ pad2 (digits (nat (getMonth p (clock p) + 1))) @ ''-''
     @ pad2 (digits (nat (getDate p (clock p))))"

definition setTodayDate :: "platform \<Rightarrow> form_page \<Rightarrow> form_page" where
  "setTodayDate p page = page\<lparr>date_input := today p\<rparr>"

definition categories_url :: string where
  "categories_url = ''http://localhost:5000/api/categories''"

definition append_url :: string where
  "append_url = ''http://localhost:5000/api/append''"

definition populate :: "string list \<Rightarrow> category_select \<Rightarrow> category_select" where
  "populate categories sel =
     sel\<lparr>sel_options :=
           ([], ''Select a category'') # map (\<lambda>c. (c, c)) categories @ [newOption],
         sel_index := Some 0\<rparr>"

text \<open>
  \<open>loadCategories\<close>. Modelled from the spec: the body of the answer is
  \<open>{success, categories}\<close>, a boolean and a list of category names. The status of the
  response is not looked at. On a page without the select the function returns early;
  the page of the form has it.
\<close>

definition loadCategories :: "(bool \<times> string list) response \<Rightarrow> form_page \<Rightarrow> form_page" where
  "loadCategories r page =
     (let page = page\<lparr>form_requests := form_requests page @ [GET categories_url]\<rparr> in
      case r of
        Response st (Some (success, categories)) \<Rightarrow>
          if success then page\<lparr>category := populate categories (category page)\<rparr> else page
      | _ \<Rightarrow> page\<lparr>form_console := form_console page @ [''Error loading categories:'']\<rparr>)"

text \<open>
  \<open>showMessage\<close> sets the text and the class of the message area, if the page has one. The
  two timers that fade the message in and out are not modelled.
\<close>

definition showMessage :: "string \<Rightarrow> string \<Rightarrow> form_page \<Rightarrow> form_page" where
  "showMessage text type page =
     (case messageDiv page of
        None \<Rightarrow> page
      | Some m \<Rightarrow>
          page\<lparr>messageDiv := Some \<lparr>msg_text = text, msg_class = ''message '' @ type\<rparr>\<rparr>)"

subsection \<open>The change handler of the category select\<close>

text \<open>
  \<open>answer\<close> is what \<open>prompt\<close> returns: \<open>None\<close> when the dialog is dismissed. An option
  inserted with \<open>selected = true\<close> becomes the selected option of the select.
\<close>

definition category_change :: "string option \<Rightarrow> category_select \<Rightarrow> category_select" where
  "category_change answer sel =
     (if select_value sel = NEW_CATEGORY then
        (case answer of
           None \<Rightarrow> set_value [] sel
         | Some newCategory \<Rightarrow>
             if newCategory \<noteq> [] \<and> trim newCategory \<noteq> [] then
               sel\<lparr>sel_options :=
                     insertBefore_last (trim newCategory, trim newCategory) (sel_options sel),
                   sel_index := Some (length (sel_options sel) - 1)\<rparr>
             else set_value [] sel)
      else sel)"

subsection \<open>The submit handler\<close>

text \<open>
  The handler is an asynchronous function. \<open>submit_begin\<close> runs it up to its \<open>await\<close>: the
  submission is rejected by the validation, or the request has been sent and the page
  waits for the answer. \<open>submit_end\<close> runs the rest once the answer has arrived or the
  request has failed. Modelled from the spec: the body of the answer of the append endpoint
  is \<open>{success, message}\<close>, a boolean and a string.
\<close>

datatype submission = Rejected form_page | Pending form_page

definition formData :: "form_page \<Rightarrow> json" where
  "formData page =
     JObj [(''title'', JStr (trim (title_input page))),
           (''category'', JStr (select_value (category page))),
           (''amount'', JStr (amount_input page)),
           (''date'', JStr (date_input page))]"

definition busy_html :: string where
  \<open>busy_html = ''<span class="loading"></span>Adding...''\<close>

definition submit_begin :: "form_page \<Rightarrow> submission" where
  "submit_begin page =
     (if select_value (category page) = NEW_CATEGORY
      then Rejected (showMessage ''Please select a valid category'' ''error'' page)
      else
        Pending
          (page\<lparr>submitBtn :=
                  map_option (\<lambda>b. b\<lparr>btn_disabled := True, btn_html := busy_html\<rparr>)
                    (submitBtn page),
                form_requests :=
                  form_requests page
                  @ [\<lparr>req_method = ''POST'', req_url = append_url,
                      req_body = Some (formData page)\<rparr>]\<rparr>))"

text \<open>\<open>transactionForm.reset()\<close>; the inputs have no default value in the markup.\<close>

definition form_reset :: "form_page \<Rightarrow> form_page" where
  "form_reset page =
     page\<lparr>title_input := [], amount_input := [], date_input := [],
          category := (category page)
            \<lparr>sel_index := (if sel_options (category page) = [] then None else Some 0)\<rparr>\<rparr>"

definition submit_end :: "platform \<Rightarrow> (bool \<times> string) response \<Rightarrow> form_page \<Rightarrow> form_page" where
  "submit_end p r page =
     (let page =
        (case r of
           Response st (Some (success, message)) \<Rightarrow>
             if success
             then setTodayDate p (form_reset (showMessage message ''success'' page))
             else showMessage message ''error'' page
         | _ \<Rightarrow>
             (showMessage ''Network error. Please check your connection.'' ''error'' page)
               \<lparr>form_console := form_console page @ [''Error:'']\<rparr>)
      in page\<lparr>submitBtn :=
                map_option (\<lambda>b. b\<lparr>btn_disabled := False, btn_html := ''Add Transaction''\<rparr>)
                  (submitBtn page)\<rparr>)"

definition submit :: "platform \<Rightarrow> (bool \<times> string) response \<Rightarrow> form_page \<Rightarrow> form_page" where
  "submit p r page =
     (case submit_begin page of
        Rejected page \<Rightarrow> page
      | Pending page \<Rightarrow> submit_end p r page)"

section \<open>Definitions that follow the specification's words\<close>

subsection \<open>The Gregorian calendar\<close>

text \<open>
  The "standard Gregorian rules" the specification compares the calendar with, written
  independently of the Date object: the leap-year rule, the lengths of the months, and
  Zeller's congruence for the day of the week of the first day of a month (months from
  0 = January, days of the week from 0 = Sunday, as \<open>getMonth\<close> and \<open>getDay\<close> count them).
\<close>

definition greg_leap :: "int \<Rightarrow> bool" where
  "greg_leap y \<longleftrightarrow> y mod 4 = 0 \<and> (y mod 100 \<noteq> 0 \<or> y mod 400 = 0)"

definition greg_days_in_month :: "int \<Rightarrow> int \<Rightarrow> int" where
  "greg_days_in_month y m =
     (if m = 1 then (if greg_leap y then 29 else 28)
      else if m = 3 \<or> m = 5 \<or> m = 8 \<or> m = 10 then 30
      else 31)"

text \<open>
  Zeller: with January and February counted as months 13 and 14 of the year before,
  \<open>K\<close> the year of the century and \<open>J\<close> the century, the day \<open>q\<close> of month \<open>M\<close> falls on
  \<open>h = (q + \<lfloor>13 (M + 1) / 5\<rfloor> + K + \<lfloor>K / 4\<rfloor> + \<lfloor>J / 4\<rfloor> + 5 J) mod 7\<close>, where 0 is Saturday.
\<close>

definition year_term :: "int \<Rightarrow> int" where
  "year_term Y = Y mod 100 + (Y mod 100) div 4 + (Y div 100) div 4 + 5 * (Y div 100)"

definition zeller :: "int \<Rightarrow> int \<Rightarrow> int \<Rightarrow> int" where
  "zeller Y M q = (q + (13 * (M + 1)) div 5 + year_term Y) mod 7"

definition greg_first_weekday :: "int \<Rightarrow> int \<Rightarrow> int" where
  "greg_first_weekday y m =
     ((if m < 2 then zeller (y - 1) (m + 13) 1 else zeller y (m + 1) 1) + 6) mod 7"

subsection \<open>Sequences of operations\<close>

text \<open>Any sequence of chart renderings on the dashboard.\<close>

datatype chart_call = PieChart string string json | LineChart string string json

fun run_chart_call :: "chart_call \<Rightarrow> dashboard \<Rightarrow> dashboard" where
  "run_chart_call (PieChart canvasId title data) s = snd (createPieChart canvasId title data s)"
| "run_chart_call (LineChart canvasId title data) s = snd (createLineChart canvasId title data s)"

definition run_chart_calls :: "chart_call list \<Rightarrow> dashboard \<Rightarrow> dashboard" where
  "run_chart_calls calls s = foldl (\<lambda>s c. run_chart_call c s) s calls"

text \<open>
  Any sequence of events on the form: the answer to the category request arrives, the
  user chooses the option at some position (and answers the prompt, if it opens), the form
  is submitted and the answer arrives.
\<close>

datatype form_event =
    CategoriesLoaded "(bool \<times> string list) response"
  | OptionChosen nat "string option"
  | Submitted "(bool \<times> string) response"

definition choose_option :: "nat \<Rightarrow> category_select \<Rightarrow> category_select" where
  "choose_option i sel = (if i < length (sel_options sel) then sel\<lparr>sel_index := Some i\<rparr> else sel)"

fun run_form_event :: "platform \<Rightarrow> form_event \<Rightarrow> form_page \<Rightarrow> form_page" where
  "run_form_event p (CategoriesLoaded r) page = loadCategories r page"
| "run_form_event p (OptionChosen i answer) page =
     page\<lparr>category := category_change answer (choose_option i (category page))\<rparr>"
| "run_form_event p (Submitted r) page = submit p r page"



text \<open>
  The requests the client can send: those of the dashboard through \<open>apiBase\<close>, the
  category list and the append. A URL is under a base when it is the base, a slash and
  the name of an endpoint.
\<close>

definition client_urls :: "string list" where
  "client_urls =
     [apiBase @ ''/test'', apiBase @ ''/summary'', apiBase @ ''/spending-by-category'',
      apiBase @ ''/monthly-trends'', apiBase @ ''/calendar-data'',
      apiBase @ ''/recent-transactions'', apiBase @ ''/reload-data'',
      categories_url, append_url]"


subsection \<open>Concrete viewers and pages\<close>

text \<open>
  A viewer in a zone five hours behind UTC all year (Bogota, Lima), reading the page on
  20 March 2024 at 12:00 UTC; and a viewer on UTC reading it on 15 April 2026.
\<close>

definition english_month :: "int \<Rightarrow> string" where
  "english_month m =
     [''January'', ''February'', ''March'', ''April'', ''May'', ''June'', ''July'',
      ''August'', ''September'', ''October'', ''November'', ''December''] ! nat m"

definition viewer_utc_minus_5 :: platform where
  "viewer_utc_minus_5 =
     \<lparr>clock = 1710936000000, tza = - 18000000, month_long = english_month,
      frac_toString = (\<lambda>x. ''42.5'')\<rparr>"

definition viewer_utc :: platform where
  "viewer_utc =
     \<lparr>clock = 1776254400000, tza = 0, month_long = english_month,
      frac_toString = (\<lambda>x. ''42.5'')\<rparr>"

definition groceries :: calendar_event where
  "groceries =
     \<lparr>ev_date = ''2024-03-15'', ev_title = ''Groceries'', ev_amount = - 85 / 2,
      ev_type = ''expense''\<rparr>"

text \<open>The dashboard as the constructor finds it: the markup with its two canvases.\<close>

definition fresh_dashboard :: dashboard where
  "fresh_dashboard =
     \<lparr>total_transactions = [], total_income = [], total_expenses = [], net_amount = [],
      canvases = [''spending-chart'', ''trends-chart''], charts = Map.empty,
      chart_instances = [], current_month = [], calendar_grid = [],
      recent_transactions = [], error_banners = [], requests = [], console = []\<rparr>"

text \<open>
  The form after the categories \<open>Food\<close> and \<open>Rent\<close> have been loaded, with a title and an
  amount typed in; \<open>picked i\<close> is that form with the option at position \<open>i\<close> chosen.
\<close>

definition loaded_form :: form_page where
  "loaded_form =
     \<lparr>title_input = '' Coffee '',
      category = populate [''Food'', ''Rent''] \<lparr>sel_options = [], sel_index = None\<rparr>,
      amount_input = ''-3.50'', date_input = ''2024-03-20'',
      submitBtn = Some \<lparr>btn_disabled = False, btn_html = ''Add Transaction''\<rparr>,
      messageDiv = Some \<lparr>msg_text = [], msg_class = ''message''\<rparr>,
      form_requests = [], form_console = []\<rparr>"

definition picked :: "nat \<Rightarrow> form_page" where
  "picked i = loaded_form\<lparr>category := choose_option i (category loaded_form)\<rparr>"

text \<open>A summary response with only a count and a net amount.\<close>

definition partial_summary :: json where
  "partial_summary = JObj [(''totalTransactions'', JNum 3), (''netAmount'', JNum 12)]"





subsection \<open>Notions used in the statements and proofs\<close>

text \<open>A field is absent from a response when the response is no object with that member.\<close>

fun absent :: "json \<Rightarrow> string \<Rightarrow> bool" where
  "absent (JObj kvs) k \<longleftrightarrow> k \<notin> fst ` set kvs"
| "absent v k \<longleftrightarrow> True"

text \<open>
  The invariant behind the charts: a chart instance that has not been destroyed is the
  one that \<open>this.charts\<close> holds for its canvas.
\<close>

definition chart_inv :: "dashboard \<Rightarrow> bool" where
  "chart_inv s \<longleftrightarrow>
     (\<forall>i < length (chart_instances s).
        \<not> destroyed (chart_instances s ! i) \<longrightarrow>
        charts s (chart_canvas (chart_instances s ! i)) = Some i)"

text \<open>What \<open>this.charts\<close> holds for a canvas is an instance created for that canvas.\<close>

definition charts_wf :: "dashboard \<Rightarrow> bool" where
  "charts_wf s \<longleftrightarrow>
     (\<forall>c i. charts s c = Some i \<longrightarrow>
        i < length (chart_instances s) \<and> chart_canvas (chart_instances s ! i) = c)"

text \<open>Three renderings in a row, two of them on the same canvas.\<close>

definition three_renderings :: "chart_call list" where
  "three_renderings =
     [PieChart ''spending-chart'' ''Spending by Category''
        (JObj [(''labels'', JArr [JStr ''Food'']), (''data'', JArr [JNum 10])]),
      LineChart ''trends-chart'' ''Monthly Income vs Expenses'' (JObj []),
      PieChart ''spending-chart'' ''Spending by Category'' (JObj [])]"

text \<open>A step from \<open>s\<close> to \<open>s'\<close> that touches only the charts, the requests and the console.\<close>

definition charts_only :: "dashboard \<Rightarrow> dashboard \<Rightarrow> bool" where
  "charts_only s s' \<longleftrightarrow>
     total_transactions s' = total_transactions s \<and> total_income s' = total_income s
     \<and> total_expenses s' = total_expenses s \<and> net_amount s' = net_amount s
     \<and> canvases s' = canvases s \<and> current_month s' = current_month s
     \<and> calendar_grid s' = calendar_grid s
     \<and> recent_transactions s' = recent_transactions s
     \<and> error_banners s' = error_banners s"


section \<open>Properties of the time-value operations\<close>

subsection \<open>Years\<close>


lemma succ_div:
  fixes x n :: int
  assumes n: "0 < n"
  shows "(x + 1) div n = x div n + (if (x + 1) mod n = 0 then 1 else 0)"
proof (cases "(x + 1) mod n = 0")
  case True
  then have e: "x + 1 = n * ((x + 1) div n)" by (metis mult_div_mod_eq add.right_neutral)
  have "x = n * ((x + 1) div n - 1) + (n - 1)"
    using e by (simp add: algebra_simps)
  then have "x div n = (x + 1) div n - 1"
    using n by (intro int_div_pos_eq[where r = "n - 1"]) simp_all
  with True show ?thesis by simp
next
  case False
  define r where "r = (x + 1) mod n"
  have "0 \<le> r" "r < n" using n by (simp_all add: r_def)
  with False have r: "0 < r" "r < n" by (simp_all add: r_def)
  have "x + 1 = n * ((x + 1) div n) + r" by (simp add: r_def)
  then have "x = n * ((x + 1) div n) + (r - 1)" by simp
  then have "x div n = (x + 1) div n"
    using r by (intro int_div_pos_eq[where r = "r - 1"]) simp_all
  with False show ?thesis by simp
qed

lemma mod4_shift: "(y - 1968) mod 4 = y mod 4" for y :: int
proof -
  have "y - 1968 = y + (- 492) * 4" by simp
  then show ?thesis by (simp only: mod_mult_self1)
qed
lemma mod100_shift: "(y - 1900) mod 100 = y mod 100" for y :: int
proof -
  have "y - 1900 = y + (- 19) * 100" by simp
  then show ?thesis by (simp only: mod_mult_self1)
qed
lemma mod400_shift: "(y - 1600) mod 400 = y mod 400" for y :: int
proof -
  have "y - 1600 = y + (- 4) * 400" by simp
  then show ?thesis by (simp only: mod_mult_self1)
qed

lemma mod100_4: "y mod 100 = 0 \<Longrightarrow> y mod 4 = 0" for y :: int
proof -
  assume "y mod 100 = 0"
  then have "100 dvd y" by (simp add: mod_eq_0_iff_dvd)
  moreover have "(4::int) dvd 100" by simp
  ultimately have "4 dvd y" using dvd_trans by blast
  then show ?thesis by (simp add: mod_eq_0_iff_dvd)
qed
lemma mod400_100: "y mod 400 = 0 \<Longrightarrow> y mod 100 = 0" for y :: int
proof -
  assume "y mod 400 = 0"
  then have "400 dvd y" by (simp add: mod_eq_0_iff_dvd)
  moreover have "(100::int) dvd 400" by simp
  ultimately have "100 dvd y" using dvd_trans by blast
  then show ?thesis by (simp add: mod_eq_0_iff_dvd)
qed

lemma DayFromYear_Suc: "DayFromYear (y + 1) = DayFromYear y + DaysInYear y"
proof -
  have a: "(y + 1 - 1969) div 4 = (y - 1969) div 4 + (if y mod 4 = 0 then 1 else 0)"
    using succ_div[of 4 "y - 1969"] mod4_shift[of y] by (simp add: algebra_simps)
  have b: "(y + 1 - 1901) div 100 = (y - 1901) div 100 + (if y mod 100 = 0 then 1 else 0)"
    using succ_div[of 100 "y - 1901"] mod100_shift[of y] by (simp add: algebra_simps)
  have c: "(y + 1 - 1601) div 400 = (y - 1601) div 400 + (if y mod 400 = 0 then 1 else 0)"
    using succ_div[of 400 "y - 1601"] mod400_shift[of y] by (simp add: algebra_simps)
  show ?thesis
    unfolding DayFromYear_def DaysInYear_def
    by (simp only: a b c) (auto dest: mod100_4 mod400_100)
qed

lemma DaysInYear_bounds: "365 \<le> DaysInYear y" "DaysInYear y \<le> 366"
  by (simp_all add: DaysInYear_def)

lemma DayFromYear_diff:
  "365 * int n \<le> DayFromYear (y + int n) - DayFromYear y \<and>
   DayFromYear (y + int n) - DayFromYear y \<le> 366 * int n"
proof (induction n)
  case 0
  show ?case by simp
next
  case (Suc n)
  have "DayFromYear (y + int (Suc n)) = DayFromYear (y + int n) + DaysInYear (y + int n)"
    using DayFromYear_Suc[of "y + int n"] by (simp add: algebra_simps)
  with Suc DaysInYear_bounds[of "y + int n"] show ?case by simp
qed

lemma DayFromYear_strict_mono: "y < z \<Longrightarrow> DayFromYear y < DayFromYear z"
proof -
  assume "y < z"
  then obtain n where n: "z = y + int n" "0 < n"
    by (metis zless_iff_Suc_zadd zero_less_Suc)
  with DayFromYear_diff[of n y] show ?thesis by simp
qed

lemma DayFromYear_mono: "y \<le> z \<Longrightarrow> DayFromYear y \<le> DayFromYear z"
  using DayFromYear_strict_mono[of y z] by (cases "y = z") simp_all


lemma year_search_bounds:
  "d < DayFromYear (y + 1) \<Longrightarrow>
   DayFromYear (year_search d y) \<le> d \<and> d < DayFromYear (year_search d y + 1)"
proof (induction d y rule: year_search.induct)
  case (1 d y)
  show ?case
  proof (cases "DayFromYear y \<le> d")
    case True
    with "1.prems" show ?thesis by (simp add: year_search.simps)
  next
    case False
    then have "d < DayFromYear (y - 1 + 1)" by simp
    with "1.IH"[OF False] False show ?thesis by (simp add: year_search.simps[of d y])
  qed
qed

lemma DayFromYear_1970: "DayFromYear 1970 = 0"
  by (simp add: DayFromYear_def)

lemma lt_div_succ:
  fixes d n :: int
  assumes "0 < n"
  shows "d < n * (d div n + 1)"
proof -
  have "n * (d div n + 1) = n * (d div n) + d mod n + (n - d mod n)"
    by (simp add: algebra_simps)
  also have "\<dots> = d + (n - d mod n)" by simp
  finally show ?thesis using pos_mod_bound[OF assms, of d] by simp
qed

lemma year_start_above:
  "d < DayFromYear (1970 + (if 0 \<le> d then d div 365 else d div 366) + 1)"
proof (cases "0 \<le> d")
  case True
  define n where "n = nat (d div 365 + 1)"
  have n: "int n = d div 365 + 1" using True by (simp add: n_def pos_imp_zdiv_nonneg_iff)
  have "365 * int n \<le> DayFromYear (1970 + int n)"
    using DayFromYear_diff[of n 1970] by (simp add: DayFromYear_1970)
  moreover have "d < 365 * (d div 365 + 1)"
    by (rule lt_div_succ) simp
  ultimately show ?thesis using True n by (simp add: algebra_simps)
next
  case False
  define n where "n = nat (- (d div 366 + 1))"
  have "d div 366 < 0" using False by (simp add: div_neg_pos_less0)
  then have n: "int n = - (d div 366 + 1)" by (simp add: n_def)
  have "DayFromYear (1970 - int n + int n) - DayFromYear (1970 - int n) \<le> 366 * int n"
    using DayFromYear_diff[of n "1970 - int n"] by blast
  then have "- 366 * int n \<le> DayFromYear (1970 - int n)"
    by (simp add: DayFromYear_1970)
  moreover have "d < 366 * (d div 366 + 1)"
    by (rule lt_div_succ) simp
  moreover have "1970 - int n = 1970 + d div 366 + 1" using n by simp
  ultimately show ?thesis using False n by simp
qed

lemma YearFromDay_bounds:
  "DayFromYear (YearFromDay d) \<le> d" "d < DayFromYear (YearFromDay d + 1)"
  using year_search_bounds[OF year_start_above[of d]] by (simp_all add: YearFromDay_def)

lemma YearFromDay_unique:
  assumes "DayFromYear y \<le> d" "d < DayFromYear (y + 1)"
  shows "YearFromDay d = y"
proof (rule ccontr)
  assume ne: "YearFromDay d \<noteq> y"
  show False
  proof (cases "YearFromDay d < y")
    case True
    then have "DayFromYear (YearFromDay d + 1) \<le> DayFromYear y"
      by (intro DayFromYear_mono) simp
    with assms(1) YearFromDay_bounds(2)[of d] show False by simp
  next
    case False
    with ne have "DayFromYear (y + 1) \<le> DayFromYear (YearFromDay d)"
      by (intro DayFromYear_mono) simp
    with assms(2) YearFromDay_bounds(1)[of d] show False by simp
  qed
qed


lemma leap_days_greg: "leap_days y = (if greg_leap y then 1 else 0)"
  by (simp add: leap_days_def DaysInYear_def greg_leap_def)

lemma DaysInYear_leap_days: "DaysInYear y = 365 + leap_days y"
  by (simp add: leap_days_def DaysInYear_def)

lemma month_cases:
  fixes m :: int
  assumes "0 \<le> m" "m \<le> 11"
  shows "m = 0 \<or> m = 1 \<or> m = 2 \<or> m = 3 \<or> m = 4 \<or> m = 5 \<or> m = 6 \<or> m = 7
         \<or> m = 8 \<or> m = 9 \<or> m = 10 \<or> m = 11"
  using assms by arith

lemma month_start_next:
  assumes "0 \<le> m" "m \<le> 10"
  shows "month_start (leap_days y) (m + 1) =
         month_start (leap_days y) m + greg_days_in_month y m"
proof -
  have "m \<le> 11" using assms by simp
  from month_cases[OF assms(1) this] assms(2) show ?thesis
    by (cases "greg_leap y")
       (auto simp: month_start_def greg_days_in_month_def leap_days_greg)
qed

lemma month_start_bounds:
  assumes "0 \<le> m" "m \<le> 11"
  shows "0 \<le> month_start (leap_days y) m"
    and "month_start (leap_days y) m + greg_days_in_month y m \<le> DaysInYear y"
  using month_cases[OF assms]
  by (cases "greg_leap y";
      auto simp: month_start_def greg_days_in_month_def leap_days_greg DaysInYear_leap_days)+

lemma day_in_month:
  assumes m: "0 \<le> m" "m \<le> 11" and k: "0 \<le> k" "k < greg_days_in_month y m"
    and d: "Day t = DayFromYear y + month_start (leap_days y) m + k"
  shows "YearFromTime t = y" "MonthFromTime t = m" "DateFromTime t = k + 1"
proof -
  have "DayFromYear y \<le> Day t"
    using d k month_start_bounds(1)[OF m, of y] by simp
  moreover have "Day t < DayFromYear (y + 1)"
    using d k month_start_bounds(2)[OF m, of y] by (simp add: DayFromYear_Suc)
  ultimately show y: "YearFromTime t = y"
    unfolding YearFromTime_def by (rule YearFromDay_unique)
  have w: "DayWithinYear t = month_start (leap_days y) m + k"
    by (simp add: DayWithinYear_def y d)
  show mm: "MonthFromTime t = m"
  proof (cases "greg_leap y")
    case True
    with month_cases[OF m] k show ?thesis
      by (elim disjE)
         (simp_all add: MonthFromTime_def w y month_start_def greg_days_in_month_def
            leap_days_greg)
  next
    case False
    with month_cases[OF m] k show ?thesis
      by (elim disjE)
         (simp_all add: MonthFromTime_def w y month_start_def greg_days_in_month_def
            leap_days_greg)
  qed
  show "DateFromTime t = k + 1"
    by (simp add: DateFromTime_def w y mm)
qed

subsection \<open>Months and days\<close>



lemma MonthFromTime_range: "0 \<le> MonthFromTime t" "MonthFromTime t \<le> 11"
  by (simp_all add: MonthFromTime_def Let_def)

lemma MakeDay_month:
  assumes "0 \<le> m" "m \<le> 11"
  shows "MakeDay y m dt = DayFromYear y + month_start (leap_days y) m + dt - 1"
  using assms by (simp add: MakeDay_def div_pos_pos_trivial)

lemma MakeDay_next_month:
  assumes "0 \<le> m" "m \<le> 11"
  shows "MakeDay y (m + 1) 0 =
         DayFromYear y + month_start (leap_days y) m + greg_days_in_month y m - 1"
proof (cases "m = 11")
  case True
  have "MakeDay y 12 0 = DayFromYear (y + 1) - 1"
    by (simp add: MakeDay_def month_start_def)
  also have "\<dots> = DayFromYear y + (365 + leap_days y) - 1"
    by (simp add: DayFromYear_Suc DaysInYear_leap_days)
  finally show ?thesis
    using True by (simp add: month_start_def greg_days_in_month_def)
next
  case False
  with assms have m: "m \<le> 10" by simp
  then have "m + 1 \<le> 11" "0 \<le> m + 1" using assms by simp_all
  then show ?thesis
    using MakeDay_month[of "m + 1" y 0] month_start_next[OF assms(1) m, of y] by simp
qed

lemma Day_MakeDate: "Day (MakeDate d 0) = d"
  by (simp add: Day_def MakeDate_def msPerDay_def)


subsection \<open>The day of the week: the time-value arithmetic agrees with Zeller\<close>


lemma succ_mod:
  fixes x n :: int
  assumes n: "0 < n"
  shows "(x + 1) mod n = (if (x + 1) mod n = 0 then 0 else x mod n + 1)"
proof (cases "(x + 1) mod n = 0")
  case True
  then show ?thesis by simp
next
  case False
  then have d: "(x + 1) div n = x div n" using succ_div[OF n, of x] by simp
  have "x + 1 = n * ((x + 1) div n) + (x + 1) mod n" by simp
  moreover have "x = n * (x div n) + x mod n" by simp
  ultimately have "(x + 1) mod n = x mod n + 1" using d by (metis add.assoc add_left_cancel)
  with False show ?thesis by simp
qed

lemma year_term_Suc:
  "year_term (Y + 1) mod 7 = (year_term Y + 1 + leap_days (Y + 1)) mod 7"
proof (cases "(Y + 1) mod 100 = 0")
  case False
  have J: "(Y + 1) div 100 = Y div 100" using succ_div[of 100 Y] False by simp
  have K: "(Y + 1) mod 100 = Y mod 100 + 1" using succ_mod[of 100 Y] False by simp
  have "((Y + 1) mod 100) mod 4 = (Y + 1) mod 4"
    by (rule mod_mod_cancel) simp
  then have c: "(Y mod 100 + 1) mod 4 = (Y + 1) mod 4" by (simp only: K)
  have K4: "(Y mod 100 + 1) div 4 = (Y mod 100) div 4 + (if (Y + 1) mod 4 = 0 then 1 else 0)"
    using succ_div[of 4 "Y mod 100"] by (simp add: c)
  have l: "leap_days (Y + 1) = (if (Y + 1) mod 4 = 0 then 1 else 0)"
    using False by (simp add: leap_days_def DaysInYear_def)
  have "year_term (Y + 1) = year_term Y + 1 + leap_days (Y + 1)"
    by (simp add: year_term_def J K K4 l)
  then show ?thesis by simp
next
  case True
  have J: "(Y + 1) div 100 = Y div 100 + 1" using succ_div[of 100 Y] True by simp
  have "Y + 1 = 100 * ((Y + 1) div 100)" using True by (metis mult_div_mod_eq add.right_neutral)
  then have Y: "Y = 100 * (Y div 100) + 99" by (simp add: J)
  have K: "Y mod 100 = 99"
    using Y by (metis mult_div_mod_eq add_left_cancel)
  have e: "Y + 1 = 100 * (Y div 100 + 1)" using Y by simp
  have "(100 * (Y div 100 + 1)) mod (100 * 4) = 100 * ((Y div 100 + 1) mod 4)"
    by (simp only: mult_mod_right)
  then have c: "(Y + 1) mod 400 = 100 * ((Y div 100 + 1) mod 4)" by (simp add: e)
  have J4: "(Y div 100 + 1) div 4 = (Y div 100) div 4 + (if (Y + 1) mod 400 = 0 then 1 else 0)"
    using succ_div[of 4 "Y div 100"] by (simp add: c)
  have l: "leap_days (Y + 1) = (if (Y + 1) mod 400 = 0 then 1 else 0)"
    using True mod100_4[OF True] by (simp add: leap_days_def DaysInYear_def)
  have eq: "year_term Y + 1 + leap_days (Y + 1) = year_term (Y + 1) + 17 * 7"
    by (simp add: year_term_def J K J4 l True)
  show ?thesis by (simp only: eq mod_mult_self1)
qed

lemma mod7_year: "(365 + l) mod 7 = (1 + l) mod 7" for l :: int
proof -
  have "365 + l = (1 + l) + 52 * 7" by simp
  then show ?thesis by (simp only: mod_mult_self1)
qed

lemma mod7_up:
  fixes D Z Z' l :: int
  assumes "D mod 7 = (Z + 4) mod 7" "Z' mod 7 = (Z + 1 + l) mod 7"
  shows "(D + (365 + l)) mod 7 = (Z' + 4) mod 7"
proof -
  have "(D + (365 + l)) mod 7 = ((Z + 4) + (1 + l)) mod 7"
    by (rule mod_add_cong[OF assms(1) mod7_year])
  also have "(Z + 4) + (1 + l) = (Z + 1 + l) + 4" by simp
  also have "((Z + 1 + l) + 4) mod 7 = (Z' + 4) mod 7"
    by (rule mod_add_cong[OF assms(2)[symmetric] refl])
  finally show ?thesis .
qed

lemma mod7_down:
  fixes D Z Z' l :: int
  assumes "(D + (365 + l)) mod 7 = (Z' + 4) mod 7" "Z' mod 7 = (Z + 1 + l) mod 7"
  shows "D mod 7 = (Z + 4) mod 7"
proof -
  have "(Z' + 4) mod 7 = ((Z + 1 + l) + 4) mod 7"
    by (rule mod_add_cong[OF assms(2) refl])
  with assms(1) have "(D + (365 + l)) mod 7 = ((Z + 4) + (1 + l)) mod 7"
    by (simp add: algebra_simps)
  then have "((D + (365 + l)) - (365 + l)) mod 7 = (((Z + 4) + (1 + l)) - (1 + l)) mod 7"
    by (rule mod_diff_cong[OF _ mod7_year])
  then show ?thesis by (simp add: add.commute)
qed

lemma DayFromYear_year_term: "DayFromYear y mod 7 = (year_term (y - 1) + 4) mod 7"
proof (induction y rule: int_induct[where k = 1970])
  case base
  show ?case by (simp add: DayFromYear_def year_term_def)
next
  case (step1 i)
  have "DayFromYear (i + 1) mod 7 = (year_term i + 4) mod 7"
    unfolding DayFromYear_Suc DaysInYear_leap_days
    using step1.IH year_term_Suc[of "i - 1"] by (intro mod7_up[where Z = "year_term (i - 1)"]) simp_all
  then show ?case by simp
next
  case (step2 i)
  have "(DayFromYear (i - 1) + (365 + leap_days (i - 1))) mod 7 = (year_term (i - 1) + 4) mod 7"
    using step2.IH DayFromYear_Suc[of "i - 1"] by (simp add: DaysInYear_leap_days)
  moreover have "year_term (i - 1) mod 7 = (year_term (i - 1 - 1) + 1 + leap_days (i - 1)) mod 7"
    using year_term_Suc[of "i - 1 - 1"] by simp
  ultimately show ?case by (rule mod7_down)
qed



lemma month_term_late:
  assumes "2 \<le> m" "m \<le> 11"
  shows "(7::int) dvd month_start l m - (13 * (m + 1 + 1)) div 5 - l"
proof -
  have "0 \<le> m" using assms by simp
  from month_cases[OF this assms(2)] assms(1) show ?thesis
    by (elim disjE) (simp_all add: month_start_def)
qed

lemma month_term_early:
  assumes "0 \<le> m" "m < 2"
  shows "(7::int) dvd month_start l m - (13 * (m + 13 + 1)) div 5 + 1"
proof -
  have "m = 0 \<or> m = 1" using assms by arith
  then show ?thesis by (elim disjE) (simp_all add: month_start_def)
qed

lemma weekday_late:
  fixes D Z Z' l a c :: int
  assumes F1: "D mod 7 = (Z + 4) mod 7" and F2: "Z' mod 7 = (Z + 1 + l) mod 7"
    and ac: "7 dvd a - c - l"
  shows "(D + a + 4) mod 7 = ((1 + c + Z') mod 7 + 6) mod 7"
proof -
  have 1: "7 dvd D - (Z + 4)" using F1 by (simp only: mod_eq_dvd_iff)
  have 2: "7 dvd Z' - (Z + 1 + l)" using F2 by (simp only: mod_eq_dvd_iff)
  have 3: "7 dvd (D - (Z + 4)) - (Z' - (Z + 1 + l))" by (rule dvd_diff[OF 1 2])
  have 4: "7 dvd (D - (Z + 4)) - (Z' - (Z + 1 + l)) + (a - c - l)" by (rule dvd_add[OF 3 ac])
  have e: "(D - (Z + 4)) - (Z' - (Z + 1 + l)) + (a - c - l)
      = (D + a + 4) - (1 + c + Z' + 6)" by simp
  from 4 have "7 dvd (D + a + 4) - (1 + c + Z' + 6)" by (simp only: e)
  then have "(D + a + 4) mod 7 = (1 + c + Z' + 6) mod 7" by (simp only: mod_eq_dvd_iff)
  also have "\<dots> = ((1 + c + Z') mod 7 + 6) mod 7" by (simp only: mod_add_left_eq)
  finally show ?thesis .
qed

lemma weekday_early:
  fixes D Z a c :: int
  assumes F1: "D mod 7 = (Z + 4) mod 7" and ac: "7 dvd a - c + 1"
  shows "(D + a + 4) mod 7 = ((1 + c + Z) mod 7 + 6) mod 7"
proof -
  have 1: "7 dvd D - (Z + 4)" using F1 by (simp only: mod_eq_dvd_iff)
  have 2: "7 dvd (D - (Z + 4)) + (a - c + 1)"
    by (rule dvd_add[OF 1 ac])
  have e: "(D - (Z + 4)) + (a - c + 1) = (D + a + 4) - (1 + c + Z + 6)" by simp
  from 2 have "7 dvd (D + a + 4) - (1 + c + Z + 6)" by (simp only: e)
  then have "(D + a + 4) mod 7 = (1 + c + Z + 6) mod 7" by (simp only: mod_eq_dvd_iff)
  also have "\<dots> = ((1 + c + Z) mod 7 + 6) mod 7" by (simp only: mod_add_left_eq)
  finally show ?thesis .
qed

lemma first_weekday_zeller:
  assumes "0 \<le> m" "m \<le> 11"
  shows "(DayFromYear y + month_start (leap_days y) m + 4) mod 7 = greg_first_weekday y m"
proof (cases "m < 2")
  case True
  show ?thesis
    using weekday_early[OF DayFromYear_year_term[of y] month_term_early[OF assms(1) True]]
      True
    by (simp add: greg_first_weekday_def zeller_def)
next
  case False
  then have m: "2 \<le> m" by simp
  have F2: "year_term y mod 7 = (year_term (y - 1) + 1 + leap_days y) mod 7"
    using year_term_Suc[of "y - 1"] by simp
  show ?thesis
    using weekday_late[OF DayFromYear_year_term[of y] F2 month_term_late[OF m assms(2)]]
      False
    by (simp add: greg_first_weekday_def zeller_def)
qed

subsection \<open>The first and the last day of a month through the Date object\<close>


lemma DayFromYear_limits:
  "DayFromYear (- 271820) = - 99999744" "DayFromYear 275760 = 99999744"
  by (simp_all add: DayFromYear_def)

lemma TimeClip_in_range:
  assumes d: "DayFromYear y \<le> d" "d < DayFromYear (y + 1)"
    and y: "- 271821 < y" "y < 275760" and tz: "\<bar>tza p\<bar> < msPerDay"
  shows "TimeClip (UTC p (MakeDate d 0)) = Some (MakeDate d 0 - tza p)"
proof -
  have "DayFromYear (- 271820) \<le> DayFromYear y"
    using y by (intro DayFromYear_mono) simp
  moreover have "DayFromYear (y + 1) \<le> DayFromYear 275760"
    using y by (intro DayFromYear_mono) simp
  ultimately have "- 99999744 \<le> d" "d \<le> 99999743"
    using d by (simp_all add: DayFromYear_limits)
  then have "\<bar>d * 86400000 - tza p\<bar> \<le> 8640000000000000"
    using tz by (simp add: msPerDay_def abs_le_iff abs_less_iff)
  then show ?thesis
    by (simp add: TimeClip_def UTC_def MakeDate_def msPerDay_def)
qed

lemma local_day: "Day (LocalTime p (MakeDate d 0 - tza p)) = d"
  by (simp add: LocalTime_def Day_MakeDate)

lemma first_of_month:
  assumes m: "0 \<le> m" "m \<le> 11" and yr: "y < 0 \<or> 99 < y"
    and y: "- 271821 < y" "y < 275760" and tz: "\<bar>tza p\<bar> < msPerDay"
  shows "map_option (getDay p) (new_Date_ymd p y m 1) = Some (greg_first_weekday y m)"
proof -
  let ?d = "MakeDay y m 1"
  have d: "?d = DayFromYear y + month_start (leap_days y) m"
    using MakeDay_month[OF m, of y 1] by simp
  have dim: "0 < greg_days_in_month y m" by (simp add: greg_days_in_month_def)
  have lo: "DayFromYear y \<le> ?d" using month_start_bounds(1)[OF m, of y] d by simp
  have hi: "?d < DayFromYear (y + 1)"
    using month_start_bounds(2)[OF m, of y] d dim by (simp add: DayFromYear_Suc)
  have "new_Date_ymd p y m 1 = Some (MakeDate ?d 0 - tza p)"
    using yr TimeClip_in_range[OF lo hi y tz] by (auto simp: new_Date_ymd_def)
  moreover have "getDay p (MakeDate ?d 0 - tza p) = (?d + 4) mod 7"
    by (simp add: getDay_def WeekDay_def local_day)
  ultimately show ?thesis
    using first_weekday_zeller[OF m, of y] d by simp
qed

lemma last_of_month:
  assumes m: "0 \<le> m" "m \<le> 11" and yr: "y < 0 \<or> 99 < y"
    and y: "- 271821 < y" "y < 275760" and tz: "\<bar>tza p\<bar> < msPerDay"
  shows "map_option (getDate p) (new_Date_ymd p y (m + 1) 0) = Some (greg_days_in_month y m)"
proof -
  let ?d = "MakeDay y (m + 1) 0"
  let ?k = "greg_days_in_month y m - 1"
  have d: "?d = DayFromYear y + month_start (leap_days y) m + ?k"
    using MakeDay_next_month[OF m, of y] by simp
  have k: "0 \<le> ?k" "?k < greg_days_in_month y m" by (simp_all add: greg_days_in_month_def)
  have lo: "DayFromYear y \<le> ?d" using month_start_bounds(1)[OF m, of y] d k by simp
  have hi: "?d < DayFromYear (y + 1)"
    using month_start_bounds(2)[OF m, of y] d by (simp add: DayFromYear_Suc)
  have "new_Date_ymd p y (m + 1) 0 = Some (MakeDate ?d 0 - tza p)"
    using yr TimeClip_in_range[OF lo hi y tz] by (auto simp: new_Date_ymd_def)
  moreover have "Day (LocalTime p (MakeDate ?d 0 - tza p))
      = DayFromYear y + month_start (leap_days y) m + ?k"
    using d by (simp only: local_day)
  then have "getDate p (MakeDate ?d 0 - tza p) = ?k + 1"
    unfolding getDate_def by (rule day_in_month(3)[OF m k])
  ultimately show ?thesis by simp
qed

section \<open>The calendar\<close>



lemma calendar_cells_gregorian:
  assumes m: "0 \<le> m" "m \<le> 11" and yr: "y < 0 \<or> 99 < y"
    and y: "- 271821 < y" "y < 275760" and tz: "\<bar>tza p\<bar> < msPerDay"
  shows "calendar_cells p y m events =
         map dayHeader header_days
         @ replicate (nat (greg_first_weekday y m)) emptyDay
         @ map (dayDiv p y m events) [1..greg_days_in_month y m]"
  by (simp add: calendar_cells_def first_of_month[OF assms] last_of_month[OF assms])

lemma getMonth_range: "0 \<le> getMonth p t" "getMonth p t \<le> 11"
  by (simp_all add: getMonth_def MonthFromTime_range)

text \<open>
  Claim C4. For the month and year that the viewer's clock shows, \<open>renderCalendar\<close> produces
  the seven headers, then exactly as many blank cells as the Gregorian day of the week of
  the first of the month (Zeller's congruence, 0 = Sunday), then exactly one day cell for
  each day of the month under the Gregorian rules, in order. The year is any year that a
  clock can show: outside 0..99, which the Date constructor reads as 1900..1999, and inside
  the range of time values.
\<close>

theorem renderCalendar_gregorian_grid:
  assumes now: "y = getFullYear p (clock p)" "m = getMonth p (clock p)"
    and yr: "y < 0 \<or> 99 < y" and y: "- 271821 < y" "y < 275760"
    and tz: "\<bar>tza p\<bar> < msPerDay"
  shows "calendar_grid (renderCalendar p events s) =
           map dayHeader header_days
           @ replicate (nat (greg_first_weekday y m)) emptyDay
           @ map (dayDiv p y m events) [1..greg_days_in_month y m]
         \<and> length (calendar_grid (renderCalendar p events s)) =
           7 + nat (greg_first_weekday y m) + nat (greg_days_in_month y m)"
proof -
  have m: "0 \<le> m" "m \<le> 11" using now getMonth_range by simp_all
  have g: "calendar_grid (renderCalendar p events s) =
           map dayHeader header_days
           @ replicate (nat (greg_first_weekday y m)) emptyDay
           @ map (dayDiv p y m events) [1..greg_days_in_month y m]"
    using calendar_cells_gregorian[OF m yr y tz] now
    by (simp add: renderCalendar_def Let_def)
  have "length (calendar_grid (renderCalendar p events s)) =
           7 + nat (greg_first_weekday y m) + nat (greg_days_in_month y m)"
    by (simp only: g) (simp add: header_days_def)
  with g show ?thesis by simp
qed

lemmas date_eval =
  getFullYear_def getMonth_def getDate_def getDay_def LocalTime_def UTC_def
  YearFromTime_def YearFromDay_def MonthFromTime_def DateFromTime_def DayWithinYear_def
  Day_def msPerDay_def year_search.simps DayFromYear_def DaysInYear_def leap_days_def
  month_start_def MakeDay_def MakeDate_def TimeClip_def WeekDay_def

lemma viewer_utc_now:
  "getFullYear viewer_utc (clock viewer_utc) = 2026" "getMonth viewer_utc (clock viewer_utc) = 3"
  by (simp_all add: viewer_utc_def date_eval)

text \<open>
  April 2026 has 30 days and starts on a Wednesday: three blank cells and thirty day cells.
\<close>

theorem renderCalendar_gregorian_grid_witness:
  "2026 = getFullYear viewer_utc (clock viewer_utc)
   \<and> 3 = getMonth viewer_utc (clock viewer_utc)
   \<and> ((2026::int) < 0 \<or> (99::int) < 2026) \<and> (- 271821 :: int) < 2026 \<and> (2026::int) < 275760
   \<and> \<bar>tza viewer_utc\<bar> < msPerDay
   \<and> calendar_grid (renderCalendar viewer_utc [] fresh_dashboard) =
        map dayHeader header_days @ replicate 3 emptyDay
        @ map (dayDiv viewer_utc 2026 3 []) [1..30]
   \<and> length (calendar_grid (renderCalendar viewer_utc [] fresh_dashboard)) = 40"
proof -
  have h1: "2026 = getFullYear viewer_utc (clock viewer_utc)"
    and h2: "3 = getMonth viewer_utc (clock viewer_utc)"
    by (simp_all add: viewer_utc_now)
  have h3: "(2026::int) < 0 \<or> (99::int) < 2026" and h4: "(- 271821 :: int) < 2026"
    and h5: "(2026::int) < 275760" by simp_all
  have h6: "\<bar>tza viewer_utc\<bar> < msPerDay" by (simp add: viewer_utc_def msPerDay_def)
  have w: "greg_first_weekday 2026 3 = 3" "greg_days_in_month 2026 3 = 30"
    by (simp_all add: greg_first_weekday_def zeller_def year_term_def greg_days_in_month_def)
  show ?thesis
    using renderCalendar_gregorian_grid[OF h1 h2 h3 h4 h5 h6, of "[]" fresh_dashboard]
      h1 h2 h6
    by (simp add: w header_days_def)
qed

lemma Day_west:
  assumes "- msPerDay \<le> tza p" "tza p < 0"
  shows "Day (LocalTime p (MakeDate d 0)) = d - 1"
proof -
  have "d * msPerDay + tza p = msPerDay * (d - 1) + (msPerDay + tza p)"
    by (simp add: algebra_simps)
  then have "(d * msPerDay + tza p) div msPerDay = d - 1"
    using assms by (intro int_div_pos_eq[where r = "msPerDay + tza p"]) simp_all
  then show ?thesis by (simp add: Day_def LocalTime_def MakeDate_def)
qed

lemma Day_east:
  assumes "0 \<le> tza p" "tza p < msPerDay"
  shows "Day (LocalTime p (MakeDate d 0)) = d"
proof -
  have "d * msPerDay + tza p = msPerDay * d + tza p"
    by (simp add: algebra_simps)
  then have "(d * msPerDay + tza p) div msPerDay = d"
    using assms by (intro int_div_pos_eq[where r = "tza p"]) simp_all
  then show ?thesis by (simp add: Day_def LocalTime_def MakeDate_def)
qed

lemma parse_2024_03_15: "Date_parse ''2024-03-15'' = Some (MakeDate (MakeDay 2024 2 15) 0)"
  by (simp add: Date_parse_def digit_value_def date_eval)

lemma groceries_west:
  assumes tz: "- msPerDay \<le> tza p" "tza p < 0"
  shows "on_day p y m d groceries \<longleftrightarrow> y = 2024 \<and> m = 2 \<and> d = 14"
proof -
  let ?t = "LocalTime p (MakeDate (MakeDay 2024 2 15) 0)"
  have "Day ?t = DayFromYear 2024 + month_start (leap_days 2024) 2 + 13"
    using MakeDay_month[of 2 2024 15] by (simp add: Day_west[OF tz])
  from day_in_month[OF _ _ _ _ this]
  have "YearFromTime ?t = 2024" "MonthFromTime ?t = 2" "DateFromTime ?t = 14"
    by (simp_all add: greg_days_in_month_def)
  then show ?thesis
    by (auto simp: on_day_def groceries_def parse_2024_03_15 getFullYear_def getMonth_def
        getDate_def)
qed

lemma groceries_east:
  assumes tz: "0 \<le> tza p" "tza p < msPerDay"
  shows "on_day p y m d groceries \<longleftrightarrow> y = 2024 \<and> m = 2 \<and> d = 15"
proof -
  let ?t = "LocalTime p (MakeDate (MakeDay 2024 2 15) 0)"
  have "Day ?t = DayFromYear 2024 + month_start (leap_days 2024) 2 + 14"
    using MakeDay_month[of 2 2024 15] by (simp add: Day_east[OF tz])
  from day_in_month[OF _ _ _ _ this]
  have "YearFromTime ?t = 2024" "MonthFromTime ?t = 2" "DateFromTime ?t = 15"
    by (simp_all add: greg_days_in_month_def)
  then show ?thesis
    by (auto simp: on_day_def groceries_def parse_2024_03_15 getFullYear_def getMonth_def
        getDate_def)
qed


text \<open>
  Claim C1 says that the event dated 2024-03-15 appears in the cell of day 15 of March 2024
  and nowhere else. The date string is parsed as midnight UTC and read back in local time:
  for every viewer west of Greenwich the only cell that matches the event is that of
  14 March 2024, so the rendering of March 2024 shows the marker in the cell of day 14
  and leaves the cell of day 15 empty.
\<close>

theorem groceries_shown_a_day_early:
  assumes tz: "- msPerDay < tza p" "tza p < 0"
    and now: "getFullYear p (clock p) = 2024" "getMonth p (clock p) = 2"
  shows "(\<forall>y m d. on_day p y m d groceries \<longleftrightarrow> y = 2024 \<and> m = 2 \<and> d = 14)
         \<and> calendar_grid (renderCalendar p [groceries] s) ! 25 =
             Element ''calendar-day has-event'' ''<strong>14</strong>'' [] [eventDiv p groceries]
         \<and> calendar_grid (renderCalendar p [groceries] s) ! 26 =
             Element ''calendar-day'' ''<strong>15</strong>'' [] []"
proof -
  have tz': "\<bar>tza p\<bar> < msPerDay" using tz by (simp add: msPerDay_def)
  have tz2: "- msPerDay \<le> tza p" using tz by simp
  have w: "greg_first_weekday 2024 2 = 5" "greg_days_in_month 2024 2 = 31"
    by (simp_all add: greg_first_weekday_def zeller_def year_term_def greg_days_in_month_def)
  have g: "calendar_grid (renderCalendar p [groceries] s) =
           map dayHeader header_days @ replicate 5 emptyDay
           @ map (dayDiv p 2024 2 [groceries]) [1..31]"
    using calendar_cells_gregorian[of 2 2024 p "[groceries]"] tz' now
    by (simp add: renderCalendar_def Let_def w)
  have n: "length (map dayHeader header_days @ replicate 5 emptyDay) = 12"
    by (simp add: header_days_def)
  have u: "[1..31::int] ! 13 = 14" "[1..31::int] ! 14 = 15" by simp_all
  have c14: "calendar_grid (renderCalendar p [groceries] s) ! 25 = dayDiv p 2024 2 [groceries] 14"
    using n u by (simp add: g nth_append)
  have c15: "calendar_grid (renderCalendar p [groceries] s) ! 26 = dayDiv p 2024 2 [groceries] 15"
    using n u by (simp add: g nth_append)
  show ?thesis
    by (simp add: c14 c15 dayDiv_def groceries_west[OF tz2 tz(2)] digits.simps)
qed

text \<open>The viewer five hours behind UTC, on 20 March 2024.\<close>

theorem groceries_shown_a_day_early_witness:
  "- msPerDay < tza viewer_utc_minus_5 \<and> tza viewer_utc_minus_5 < 0
   \<and> getFullYear viewer_utc_minus_5 (clock viewer_utc_minus_5) = 2024
   \<and> getMonth viewer_utc_minus_5 (clock viewer_utc_minus_5) = 2
   \<and> on_day viewer_utc_minus_5 2024 2 14 groceries
   \<and> \<not> on_day viewer_utc_minus_5 2024 2 15 groceries
   \<and> children (calendar_grid (renderCalendar viewer_utc_minus_5 [groceries] fresh_dashboard) ! 25)
       = [Element ''calendar-event expense'' ''Groceries'' ''Groceries: $42.5'' []]
   \<and> children (calendar_grid (renderCalendar viewer_utc_minus_5 [groceries] fresh_dashboard) ! 26)
       = []"
proof -
  have h1: "- msPerDay < tza viewer_utc_minus_5" and h2: "tza viewer_utc_minus_5 < 0"
    by (simp_all add: viewer_utc_minus_5_def msPerDay_def)
  have h3: "getFullYear viewer_utc_minus_5 (clock viewer_utc_minus_5) = 2024"
    and h4: "getMonth viewer_utc_minus_5 (clock viewer_utc_minus_5) = 2"
    by (simp_all add: viewer_utc_minus_5_def date_eval)
  have e: "eventDiv viewer_utc_minus_5 groceries
      = Element ''calendar-event expense'' ''Groceries'' ''Groceries: $42.5'' []"
  proof -
    have "\<lfloor>(85::rat) / 2\<rfloor> = 42" by (rule floor_unique) simp_all
    then show ?thesis
      by (simp add: eventDiv_def groceries_def Number_toString_def viewer_utc_minus_5_def)
  qed
  show ?thesis
    using groceries_shown_a_day_early[OF h1 h2 h3 h4, of fresh_dashboard] h1 h2 h3 h4
    by (simp add: e)
qed

section \<open>The summary tiles\<close>


lemma digits_0: "digits 0 = ''0''"
  by (simp add: digits.simps)

lemma toFixed2_0: "toFixed2 p 0 = ''0.00''"
  by (simp add: toFixed2_def digits_0)

lemma Number_toString_0: "Number_toString p 0 = ''0''"
  by (simp add: Number_toString_def digits_0)

lemma get_prop_absent: "absent v k \<Longrightarrow> get_prop v k = Inr x \<Longrightarrow> x = None"
  by (cases v) (auto simp: get_prop_def map_of_eq_None_iff)

lemma money_None: "money p None = Inr ''$0.00''"
  by (simp add: money_def or_else_def toFixed2_0)

lemma summary_texts_absent:
  assumes "summary_texts p summary = Inr (tt, income, expenses, net)"
  shows "(absent summary ''totalTransactions'' \<longrightarrow> tt = ''0'')
       \<and> (absent summary ''totalDeposits'' \<longrightarrow> income = ''$0.00'')
       \<and> (absent summary ''totalWithdrawals'' \<longrightarrow> expenses = ''$0.00'')
       \<and> (absent summary ''netAmount'' \<longrightarrow> net = ''$0.00'')"
  using assms
  by (auto simp: summary_texts_def or_else_def Number_toString_0 money_None
      split: sum.splits if_splits dest!: get_prop_absent)

text \<open>
  Claim C7. Whatever the summary response holds, the tile of every field that is absent
  from it shows the zero default: \<open>0\<close> for the number of transactions, \<open>$0.00\<close> for the
  deposits, the withdrawals and the net amount.
\<close>

theorem absent_summary_fields_show_zero:
  assumes "r = Response st (Some summary)"
  shows "(absent summary ''totalTransactions'' \<longrightarrow>
            total_transactions (loadSummary p r s) = ''0'')
       \<and> (absent summary ''totalDeposits'' \<longrightarrow> total_income (loadSummary p r s) = ''$0.00'')
       \<and> (absent summary ''totalWithdrawals'' \<longrightarrow>
            total_expenses (loadSummary p r s) = ''$0.00'')
       \<and> (absent summary ''netAmount'' \<longrightarrow> net_amount (loadSummary p r s) = ''$0.00'')"
proof (cases "fetchData r")
  case (Inl e)
  then show ?thesis by (simp add: loadSummary_def Let_def summary_defaults_def)
next
  case (Inr v)
  then have v: "v = summary" using assms by (auto simp: fetchData_def split: if_splits)
  show ?thesis
  proof (cases "summary_texts p summary")
    case (Inl e)
    with Inr v show ?thesis by (simp add: loadSummary_def Let_def summary_defaults_def)
  next
    case (Inr texts)
    obtain tt income expenses net where t: "texts = (tt, income, expenses, net)"
      by (cases texts)
    from summary_texts_absent[OF Inr[unfolded t]] \<open>fetchData r = Inr v\<close> v Inr t
    show ?thesis by (simp add: loadSummary_def Let_def)
  qed
qed


text \<open>A response without deposits and withdrawals.\<close>

theorem absent_summary_fields_show_zero_witness:
  "Response 200 (Some partial_summary) = Response 200 (Some partial_summary)
   \<and> absent partial_summary ''totalDeposits'' \<and> absent partial_summary ''totalWithdrawals''
   \<and> \<not> absent partial_summary ''netAmount''
   \<and> total_income (loadSummary viewer_utc (Response 200 (Some partial_summary)) fresh_dashboard)
       = ''$0.00''
   \<and> total_expenses
         (loadSummary viewer_utc (Response 200 (Some partial_summary)) fresh_dashboard)
       = ''$0.00''"
  using absent_summary_fields_show_zero
    [OF refl, of partial_summary viewer_utc 200 fresh_dashboard]
  by (simp add: partial_summary_def)

section \<open>The charts\<close>


lemma at_most_one:
  assumes "\<And>i j. i < length xs \<Longrightarrow> j < length xs \<Longrightarrow> P (xs ! i) \<Longrightarrow> P (xs ! j) \<Longrightarrow> i = j"
  shows "length (filter P xs) \<le> 1"
  using assms
proof (induction xs)
  case Nil
  show ?case by simp
next
  case (Cons x xs)
  have tail: "length (filter P xs) \<le> 1"
  proof (rule Cons.IH)
    fix i j
    assume "i < length xs" "j < length xs" "P (xs ! i)" "P (xs ! j)"
    then have "Suc i = Suc j" by (intro Cons.prems) simp_all
    then show "i = j" by simp
  qed
  show ?case
  proof (cases "P x")
    case False
    with tail show ?thesis by simp
  next
    case True
    have "filter P xs = []"
    proof (rule ccontr)
      assume "filter P xs \<noteq> []"
      then obtain y where "y \<in> set xs" "P y"
        by (metis filter_False)
      then obtain j where "j < length xs" "xs ! j = y" by (auto simp: in_set_conv_nth)
      with \<open>P y\<close> True have "0 = Suc j" by (intro Cons.prems) simp_all
      then show False by simp
    qed
    with True show ?thesis by simp
  qed
qed

lemma chart_inv_live:
  assumes "chart_inv s"
  shows "length (live_charts s c) \<le> 1"
  unfolding live_charts_def
proof (rule at_most_one)
  fix i j
  assume i: "i < length (chart_instances s)" and j: "j < length (chart_instances s)"
    and pi: "chart_canvas (chart_instances s ! i) = c \<and> \<not> destroyed (chart_instances s ! i)"
    and pj: "chart_canvas (chart_instances s ! j) = c \<and> \<not> destroyed (chart_instances s ! j)"
  from assms i pi have "charts s c = Some i" by (auto simp: chart_inv_def)
  moreover from assms j pj have "charts s c = Some j" by (auto simp: chart_inv_def)
  ultimately show "i = j" by simp
qed

lemma chart_inv_constructed: "constructed s \<Longrightarrow> chart_inv s"
  by (simp add: constructed_def chart_inv_def)

lemma release_canvas_error: "release_canvas c s = (Some e, s') \<Longrightarrow> s' = s"
  by (auto simp: release_canvas_def split: if_splits option.splits)

lemma destroy_inv:
  assumes inv: "chart_inv s" and c: "charts s c = Some k"
  shows "chart_inv (destroy k s)"
    and "\<forall>i < length (chart_instances (destroy k s)).
           chart_canvas (chart_instances (destroy k s) ! i) = c \<longrightarrow>
           destroyed (chart_instances (destroy k s) ! i)"
proof -
  let ?xs = "chart_instances s"
  let ?ys = "?xs[k := (?xs ! k)\<lparr>destroyed := True\<rparr>]"
  have ys: "chart_instances (destroy k s) = ?ys" "charts (destroy k s) = charts s"
    by (simp_all add: destroy_def)
  have nth: "\<And>i. i < length ?xs \<Longrightarrow> i \<noteq> k \<Longrightarrow> ?ys ! i = ?xs ! i" by simp
  have nthk: "k < length ?xs \<Longrightarrow> destroyed (?ys ! k)" by simp
  show "chart_inv (destroy k s)"
    unfolding chart_inv_def ys
  proof (intro allI impI)
    fix i assume i: "i < length ?ys" and live: "\<not> destroyed (?ys ! i)"
    then have ik: "i \<noteq> k" using nthk by auto
    with i live nth[of i] have "\<not> destroyed (?xs ! i)" by simp
    with inv i have "charts s (chart_canvas (?xs ! i)) = Some i" by (simp add: chart_inv_def)
    with ik i nth[of i] show "charts s (chart_canvas (?ys ! i)) = Some i" by simp
  qed
  show "\<forall>i < length (chart_instances (destroy k s)).
           chart_canvas (chart_instances (destroy k s) ! i) = c \<longrightarrow>
           destroyed (chart_instances (destroy k s) ! i)"
    unfolding ys
  proof (intro allI impI)
    fix i assume i: "i < length ?ys" and ci: "chart_canvas (?ys ! i) = c"
    show "destroyed (?ys ! i)"
    proof (cases "i = k")
      case True
      with i nthk show ?thesis by simp
    next
      case False
      show ?thesis
      proof (rule ccontr)
        assume live: "\<not> destroyed (?ys ! i)"
        with False i nth[of i] have "\<not> destroyed (?xs ! i)" by simp
        with inv i have "charts s (chart_canvas (?xs ! i)) = Some i" by (simp add: chart_inv_def)
        moreover have "chart_canvas (?xs ! i) = c" using ci False i nth[of i] by simp
        ultimately show False using c False by simp
      qed
    qed
  qed
qed

lemma release_canvas_inv:
  assumes r: "release_canvas c s = (None, s')" and inv: "chart_inv s"
  shows "chart_inv s'"
    and "\<forall>i < length (chart_instances s').
           chart_canvas (chart_instances s' ! i) = c \<longrightarrow> destroyed (chart_instances s' ! i)"
proof -
  show "chart_inv s'"
  proof (cases "charts s c")
    case None
    with r have "s' = s" by (auto simp: release_canvas_def split: if_splits)
    with inv show ?thesis by simp
  next
    case (Some k)
    with r have "s' = destroy k s" by (auto simp: release_canvas_def split: if_splits)
    with destroy_inv(1)[OF inv Some] show ?thesis by simp
  qed
  show "\<forall>i < length (chart_instances s').
           chart_canvas (chart_instances s' ! i) = c \<longrightarrow> destroyed (chart_instances s' ! i)"
  proof (cases "charts s c")
    case None
    with r have s': "s' = s" by (auto simp: release_canvas_def split: if_splits)
    show ?thesis
    proof (intro allI impI)
      fix i assume i: "i < length (chart_instances s')"
        and ci: "chart_canvas (chart_instances s' ! i) = c"
      show "destroyed (chart_instances s' ! i)"
      proof (rule ccontr)
        assume "\<not> destroyed (chart_instances s' ! i)"
        with inv i s' have "charts s (chart_canvas (chart_instances s ! i)) = Some i"
          by (simp add: chart_inv_def)
        with ci s' None show False by simp
      qed
    qed
  next
    case (Some k)
    with r have "s' = destroy k s" by (auto simp: release_canvas_def split: if_splits)
    with destroy_inv(2)[OF inv Some] show ?thesis by simp
  qed
qed

lemma new_Chart_inv:
  assumes inv: "chart_inv s"
    and free: "\<forall>i < length (chart_instances s).
           chart_canvas (chart_instances s ! i) = chart_canvas c \<longrightarrow>
           destroyed (chart_instances s ! i)"
  shows "chart_inv (new_Chart c s)"
  unfolding chart_inv_def
proof (intro allI impI)
  fix i
  assume i: "i < length (chart_instances (new_Chart c s))"
    and live: "\<not> destroyed (chart_instances (new_Chart c s) ! i)"
  show "charts (new_Chart c s) (chart_canvas (chart_instances (new_Chart c s) ! i)) = Some i"
  proof (cases "i < length (chart_instances s)")
    case True
    then have e: "chart_instances (new_Chart c s) ! i = chart_instances s ! i"
      by (simp add: new_Chart_def nth_append)
    with live have l: "\<not> destroyed (chart_instances s ! i)" by simp
    with free True have "chart_canvas (chart_instances s ! i) \<noteq> chart_canvas c" by auto
    moreover from inv True l have "charts s (chart_canvas (chart_instances s ! i)) = Some i"
      by (simp add: chart_inv_def)
    ultimately show ?thesis by (simp add: e) (simp add: new_Chart_def)
  next
    case False
    with i have "i = length (chart_instances s)" by (simp add: new_Chart_def)
    then show ?thesis by (simp add: new_Chart_def)
  qed
qed

lemma createPieChart_inv: "chart_inv s \<Longrightarrow> chart_inv (snd (createPieChart c t d s))"
proof -
  assume inv: "chart_inv s"
  obtain e s' where r: "release_canvas c s = (e, s')" by (cases "release_canvas c s")
  show ?thesis
  proof (cases e)
    case (Some err)
    with r release_canvas_error[of c s err s'] inv show ?thesis
      by (simp add: createPieChart_def)
  next
    case None
    note ri = release_canvas_inv[OF r[unfolded None] inv]
    show ?thesis
      using r None ri(1) new_Chart_inv[OF ri(1), where c = "\<lparr>chart_canvas = c, chart_type = ''pie'',
                   chart_labels = l, chart_series = ser, destroyed = False\<rparr>" for l ser] ri(2)
      by (auto simp: createPieChart_def split: sum.splits)
  qed
qed

lemma createLineChart_inv: "chart_inv s \<Longrightarrow> chart_inv (snd (createLineChart c t d s))"
proof -
  assume inv: "chart_inv s"
  obtain e s' where r: "release_canvas c s = (e, s')" by (cases "release_canvas c s")
  show ?thesis
  proof (cases e)
    case (Some err)
    with r release_canvas_error[of c s err s'] inv show ?thesis
      by (simp add: createLineChart_def)
  next
    case None
    note ri = release_canvas_inv[OF r[unfolded None] inv]
    show ?thesis
      using r None ri(1) new_Chart_inv[OF ri(1), where c = "\<lparr>chart_canvas = c, chart_type = ''line'',
                   chart_labels = l, chart_series = ser, destroyed = False\<rparr>" for l ser] ri(2)
      by (auto simp: createLineChart_def split: sum.splits)
  qed
qed

lemma run_chart_calls_inv: "chart_inv s \<Longrightarrow> chart_inv (run_chart_calls calls s)"
  unfolding run_chart_calls_def
proof (induction calls arbitrary: s)
  case Nil
  then show ?case by simp
next
  case (Cons call calls)
  have "chart_inv (run_chart_call call s)"
    using Cons.prems by (cases call) (simp_all add: createPieChart_inv createLineChart_inv)
  from Cons.IH[OF this] show ?case by simp
qed


lemma charts_wf_constructed: "constructed s \<Longrightarrow> charts_wf s"
  by (simp add: constructed_def charts_wf_def)

lemma destroy_wf:
  assumes "charts_wf s"
  shows "charts_wf (destroy k s)"
  unfolding charts_wf_def
proof (intro allI impI)
  fix c i
  assume "charts (destroy k s) c = Some i"
  then have "charts s c = Some i" by (simp add: destroy_def)
  with assms have i: "i < length (chart_instances s)"
    and c: "chart_canvas (chart_instances s ! i) = c"
    by (simp_all add: charts_wf_def)
  then show "i < length (chart_instances (destroy k s))
      \<and> chart_canvas (chart_instances (destroy k s) ! i) = c"
    by (cases "i = k") (simp_all add: destroy_def)
qed

lemma new_Chart_wf: "charts_wf s \<Longrightarrow> charts_wf (new_Chart c s)"
  by (auto simp: charts_wf_def new_Chart_def nth_append less_Suc_eq)

lemma release_canvas_wf: "charts_wf s \<Longrightarrow> charts_wf (snd (release_canvas c s))"
  by (auto simp: release_canvas_def destroy_wf split: option.splits)

lemma createPieChart_wf: "charts_wf s \<Longrightarrow> charts_wf (snd (createPieChart c t d s))"
  using release_canvas_wf[of s c]
  by (auto simp: createPieChart_def new_Chart_wf split: prod.splits option.splits sum.splits)

lemma createLineChart_wf: "charts_wf s \<Longrightarrow> charts_wf (snd (createLineChart c t d s))"
  using release_canvas_wf[of s c]
  by (auto simp: createLineChart_def new_Chart_wf split: prod.splits option.splits sum.splits)

lemma run_chart_calls_wf: "charts_wf s \<Longrightarrow> charts_wf (run_chart_calls calls s)"
  unfolding run_chart_calls_def
proof (induction calls arbitrary: s)
  case Nil
  then show ?case by simp
next
  case (Cons call calls)
  have "charts_wf (run_chart_call call s)"
    using Cons.prems by (cases call) (simp_all add: createPieChart_wf createLineChart_wf)
  from Cons.IH[OF this] show ?case by simp
qed

lemma release_destroys:
  assumes "charts s c = Some i" "i < length (chart_instances s)" "c \<in> set (canvases s)"
  shows "release_canvas c s = (None, destroy i s)"
    and "destroyed (chart_instances (destroy i s) ! i)"
    and "destroyed (chart_instances (new_Chart x (destroy i s)) ! i)"
  using assms by (simp_all add: release_canvas_def destroy_def new_Chart_def nth_append)

lemma create_destroys_previous:
  assumes "charts s c = Some i" "i < length (chart_instances s)" "c \<in> set (canvases s)"
  shows "destroyed (chart_instances (snd (createPieChart c t d s)) ! i)"
    and "destroyed (chart_instances (snd (createLineChart c t d s)) ! i)"
  using release_destroys[OF assms]
  by (auto simp: createPieChart_def createLineChart_def split: sum.splits)

text \<open>
  Claim C5. From the state the constructor leaves, after any sequence of calls of
  \<open>createPieChart\<close> and \<open>createLineChart\<close> with any arguments, every canvas identifier has at
  most one chart instance bound to it that has not been destroyed; and a further call on a
  canvas of the page destroys the instance that \<open>this.charts\<close> holds for it.
\<close>

theorem at_most_one_live_chart:
  assumes "constructed s"
  shows "length (live_charts (run_chart_calls calls s) canvasId) \<le> 1
     \<and> (\<forall>i title data.
          charts (run_chart_calls calls s) canvasId = Some i
          \<and> canvasId \<in> set (canvases (run_chart_calls calls s)) \<longrightarrow>
          destroyed
            (chart_instances
               (snd (createPieChart canvasId title data (run_chart_calls calls s))) ! i)
          \<and> destroyed
            (chart_instances
               (snd (createLineChart canvasId title data (run_chart_calls calls s))) ! i))"
proof -
  let ?s = "run_chart_calls calls s"
  have "chart_inv ?s"
    using assms by (intro run_chart_calls_inv chart_inv_constructed)
  then have one: "length (live_charts ?s canvasId) \<le> 1" by (rule chart_inv_live)
  have wf: "charts_wf ?s"
    using assms by (intro run_chart_calls_wf charts_wf_constructed)
  have "destroyed (chart_instances (snd (createPieChart canvasId title data ?s)) ! i)
      \<and> destroyed (chart_instances (snd (createLineChart canvasId title data ?s)) ! i)"
    if "charts ?s canvasId = Some i" "canvasId \<in> set (canvases ?s)" for i title data
  proof -
    from wf that(1) have "i < length (chart_instances ?s)" by (simp add: charts_wf_def)
    from create_destroys_previous[OF that(1) this that(2)] show ?thesis by simp
  qed
  with one show ?thesis by blast
qed

lemmas chart_eval =
  run_chart_calls_def createPieChart_def createLineChart_def release_canvas_def
  Object_prototype_names_def destroy_def new_Chart_def get_prop_def or_else_def
  live_charts_def fresh_dashboard_def constructed_def

text \<open>
  Three renderings, two on the same canvas: three instances, the first one destroyed.
\<close>

theorem at_most_one_live_chart_witness:
  "constructed fresh_dashboard
   \<and> length (live_charts (run_chart_calls three_renderings fresh_dashboard) ''spending-chart'')
       \<le> 1
   \<and> length (chart_instances (run_chart_calls three_renderings fresh_dashboard)) = 3
   \<and> map destroyed (chart_instances (run_chart_calls three_renderings fresh_dashboard))
       = [True, False, False]"
proof -
  have c: "constructed fresh_dashboard" by (simp add: constructed_def fresh_dashboard_def)
  have "map destroyed (chart_instances (run_chart_calls three_renderings fresh_dashboard))
       = [True, False, False]"
    by (simp add: three_renderings_def chart_eval)
  note m = this
  have l: "length (chart_instances (run_chart_calls three_renderings fresh_dashboard)) = 3"
    using arg_cong[OF m, of length] by simp
  have one: "length (live_charts (run_chart_calls three_renderings fresh_dashboard)
      ''spending-chart'') \<le> 1"
    using at_most_one_live_chart[OF c, of three_renderings "''spending-chart''"] by blast
  show ?thesis
    by (intro conjI c one l m)
qed

section \<open>The URLs of the requests\<close>








section \<open>The initialization sequence\<close>


lemma loadSummary_frame:
  "charts (loadSummary p r s) = charts s"
  "chart_instances (loadSummary p r s) = chart_instances s"
  "canvases (loadSummary p r s) = canvases s"
  "calendar_grid (loadSummary p r s) = calendar_grid s"
  "recent_transactions (loadSummary p r s) = recent_transactions s"
  "error_banners (loadSummary p r s) = error_banners s"
  "requests (loadSummary p r s) = requests s @ [GET (apiBase @ ''/summary'')]"
  by (simp_all add: loadSummary_def Let_def send_def console_error_def summary_defaults_def
      split: sum.splits prod.splits)

lemma charts_only_refl: "charts_only s s"
  by (simp add: charts_only_def)

lemma charts_only_trans: "charts_only s s' \<Longrightarrow> charts_only s' s'' \<Longrightarrow> charts_only s s''"
  by (simp add: charts_only_def)

lemma charts_only_send: "charts_only s (send r s)"
  by (simp add: charts_only_def send_def)

lemma charts_only_console_error: "charts_only s (console_error msg s)"
  by (simp add: charts_only_def console_error_def)

lemma charts_only_release: "release_canvas c s = (e, s') \<Longrightarrow> charts_only s s'"
  by (auto simp: release_canvas_def destroy_def charts_only_def split: if_splits option.splits)

lemma charts_only_new_Chart: "charts_only s (new_Chart c s)"
  by (simp add: charts_only_def new_Chart_def)

lemma release_canvas_requests: "release_canvas c s = (e, s') \<Longrightarrow> requests s' = requests s"
  by (auto simp: release_canvas_def destroy_def split: if_splits option.splits)

lemma createPieChart_only:
  assumes "createPieChart c t d s = (e, s')"
  shows "charts_only s s'" "requests s' = requests s"
proof -
  obtain e1 s1 where r: "release_canvas c s = (e1, s1)" by (cases "release_canvas c s")
  have "s' = s1 \<or> (\<exists>x. s' = new_Chart x s1)"
    using assms r by (auto simp: createPieChart_def split: option.splits sum.splits)
  then show "charts_only s s'"
    using charts_only_release[OF r] charts_only_new_Chart charts_only_trans by blast
  from \<open>s' = s1 \<or> (\<exists>x. s' = new_Chart x s1)\<close> show "requests s' = requests s"
    using release_canvas_requests[OF r] by (auto simp: new_Chart_def)
qed

lemma createLineChart_only:
  assumes "createLineChart c t d s = (e, s')"
  shows "charts_only s s'" "requests s' = requests s"
proof -
  obtain e1 s1 where r: "release_canvas c s = (e1, s1)" by (cases "release_canvas c s")
  have "s' = s1 \<or> (\<exists>x. s' = new_Chart x s1)"
    using assms r by (auto simp: createLineChart_def split: option.splits sum.splits)
  then show "charts_only s s'"
    using charts_only_release[OF r] charts_only_new_Chart charts_only_trans by blast
  from \<open>s' = s1 \<or> (\<exists>x. s' = new_Chart x s1)\<close> show "requests s' = requests s"
    using release_canvas_requests[OF r] by (auto simp: new_Chart_def)
qed

lemma loadCharts_only:
  "charts_only s (loadCharts rc rt s)
   \<and> (requests (loadCharts rc rt s) = requests s @ [GET (apiBase @ ''/spending-by-category'')]
      \<or> requests (loadCharts rc rt s) =
          requests s
          @ [GET (apiBase @ ''/spending-by-category''), GET (apiBase @ ''/monthly-trends'')])"
proof -
  let ?s1 = "send (GET (apiBase @ ''/spending-by-category'')) s"
  have s1: "charts_only s ?s1"
    "requests ?s1 = requests s @ [GET (apiBase @ ''/spending-by-category'')]"
    by (simp_all add: charts_only_send) (simp add: send_def)
  show ?thesis
  proof (cases "fetchData rc")
    case (Inl e)
    then have "loadCharts rc rt s = console_error ''Error loading charts:'' ?s1"
      by (simp add: loadCharts_def Let_def)
    with s1 show ?thesis
      using charts_only_trans[OF s1(1) charts_only_console_error]
      by (simp add: console_error_def)
  next
    case (Inr cd)
    obtain e1 s2 where p:
      "createPieChart ''spending-chart'' ''Spending by Category'' cd ?s1 = (e1, s2)"
      by (cases "createPieChart ''spending-chart'' ''Spending by Category'' cd ?s1")
    note f2 = createPieChart_only[OF p]
    have s2: "charts_only s s2" using charts_only_trans[OF s1(1) f2(1)] .
    show ?thesis
    proof (cases e1)
      case (Some err)
      then have "loadCharts rc rt s = console_error ''Error loading charts:'' s2"
        using Inr p by (simp add: loadCharts_def Let_def)
      then show ?thesis
        using charts_only_trans[OF s2 charts_only_console_error] f2(2) s1(2)
        by (simp add: console_error_def)
    next
      case None
      let ?s3 = "send (GET (apiBase @ ''/monthly-trends'')) s2"
      have s3: "charts_only s ?s3" using charts_only_trans[OF s2 charts_only_send] .
      have r3: "requests ?s3 = requests s
          @ [GET (apiBase @ ''/spending-by-category''), GET (apiBase @ ''/monthly-trends'')]"
        using f2(2) s1(2) by (simp add: send_def)
      show ?thesis
      proof (cases "fetchData rt")
        case (Inl e)
        then have "loadCharts rc rt s = console_error ''Error loading charts:'' ?s3"
          using Inr p None by (simp add: loadCharts_def Let_def)
        then show ?thesis
          using charts_only_trans[OF s3 charts_only_console_error] r3
          by (simp add: console_error_def)
      next
        case (Inr td)
        obtain e2 s4 where l:
          "createLineChart ''trends-chart'' ''Monthly Income vs Expenses'' td ?s3 = (e2, s4)"
          by (cases "createLineChart ''trends-chart'' ''Monthly Income vs Expenses'' td ?s3")
        note f4 = createLineChart_only[OF l]
        have s4: "charts_only s s4" using charts_only_trans[OF s3 f4(1)] .
        have "loadCharts rc rt s = s4
            \<or> loadCharts rc rt s = console_error ''Error loading charts:'' s4"
          using \<open>fetchData rc = Inr cd\<close> p None Inr l
          by (cases e2) (simp_all add: loadCharts_def Let_def)
        then show ?thesis
          using s4 charts_only_trans[OF s4 charts_only_console_error] f4(2) r3
          by (auto simp: console_error_def)
      qed
    qed
  qed
qed


lemma loadCharts_requests:
  "requests (loadCharts rc rt s) = requests s @ [GET (apiBase @ ''/spending-by-category'')]
   \<or> requests (loadCharts rc rt s) =
       requests s @ [GET (apiBase @ ''/spending-by-category''), GET (apiBase @ ''/monthly-trends'')]"
  using loadCharts_only[of s rc rt] by simp

lemma loadCharts_failed:
  assumes "fetchData rc = Inl e"
  shows "chart_instances (loadCharts rc rt s) = chart_instances s"
    "charts (loadCharts rc rt s) = charts s"
    "requests (loadCharts rc rt s) = requests s @ [GET (apiBase @ ''/spending-by-category'')]"
  using assms by (simp_all add: loadCharts_def Let_def send_def console_error_def)

lemma renderCalendar_frame:
  "total_transactions (renderCalendar p ev s) = total_transactions s"
  "total_income (renderCalendar p ev s) = total_income s"
  "total_expenses (renderCalendar p ev s) = total_expenses s"
  "net_amount (renderCalendar p ev s) = net_amount s"
  "canvases (renderCalendar p ev s) = canvases s"
  "charts (renderCalendar p ev s) = charts s"
  "chart_instances (renderCalendar p ev s) = chart_instances s"
  "recent_transactions (renderCalendar p ev s) = recent_transactions s"
  "error_banners (renderCalendar p ev s) = error_banners s"
  "requests (renderCalendar p ev s) = requests s"
  "calendar_grid (renderCalendar p ev s) =
     calendar_cells p (getFullYear p (clock p)) (getMonth p (clock p)) ev"
  by (simp_all add: renderCalendar_def Let_def)

lemma loadCalendar_frame:
  "total_transactions (loadCalendar p r s) = total_transactions s"
  "total_income (loadCalendar p r s) = total_income s"
  "total_expenses (loadCalendar p r s) = total_expenses s"
  "net_amount (loadCalendar p r s) = net_amount s"
  "canvases (loadCalendar p r s) = canvases s"
  "charts (loadCalendar p r s) = charts s"
  "chart_instances (loadCalendar p r s) = chart_instances s"
  "recent_transactions (loadCalendar p r s) = recent_transactions s"
  "error_banners (loadCalendar p r s) = error_banners s"
  "requests (loadCalendar p r s) = requests s @ [GET (apiBase @ ''/calendar-data'')]"
  "calendar_grid (loadCalendar p r s) =
     calendar_cells p (getFullYear p (clock p)) (getMonth p (clock p))
       (case fetchData r of Inl e \<Rightarrow> [] | Inr events \<Rightarrow> events)"
  by (simp_all add: loadCalendar_def Let_def renderCalendar_frame send_def console_error_def
      split: sum.splits)

lemma loadRecentTransactions_frame:
  "total_transactions (loadRecentTransactions p r s) = total_transactions s"
  "total_income (loadRecentTransactions p r s) = total_income s"
  "total_expenses (loadRecentTransactions p r s) = total_expenses s"
  "net_amount (loadRecentTransactions p r s) = net_amount s"
  "canvases (loadRecentTransactions p r s) = canvases s"
  "charts (loadRecentTransactions p r s) = charts s"
  "chart_instances (loadRecentTransactions p r s) = chart_instances s"
  "calendar_grid (loadRecentTransactions p r s) = calendar_grid s"
  "error_banners (loadRecentTransactions p r s) = error_banners s"
  "requests (loadRecentTransactions p r s) = requests s @ [GET (apiBase @ ''/recent-transactions'')]"
  "recent_transactions (loadRecentTransactions p r s) =
     (case fetchData r of
        Inl e \<Rightarrow> [no_transactions]
      | Inr ts \<Rightarrow> if ts = [] then [no_transactions] else map (transactionDiv p) ts)"
  by (simp_all add: loadRecentTransactions_def Let_def renderTransactions_def send_def
      console_error_def split: sum.splits)


lemma init_connected:
  assumes "testConnection (test_reply rs) = None"
  shows "init p rs s =
     loadRecentTransactions p (recent_reply rs)
       (loadCalendar p (calendar_reply rs)
          (loadCharts (spending_reply rs) (trends_reply rs)
             (loadSummary p (summary_reply rs)
                (send (GET (apiBase @ ''/test'')) (showLoading s)))))"
  using assms by (simp add: init_def Let_def)

lemma start_frame:
  "charts (send r (showLoading s)) = charts s"
  "chart_instances (send r (showLoading s)) = chart_instances s"
  "error_banners (send r (showLoading s)) = error_banners s"
  "requests (send r (showLoading s)) = requests s @ [r]"
  by (simp_all add: send_def showLoading_def)




text \<open>
  What a failed fetch of the category breakdown leaves: no chart is created or destroyed,
  \<open>this.charts\<close> is as before, and the trends are not requested.
\<close>

lemma init_failed_chart_fetch:
  assumes "testConnection (test_reply rs) = None"
    and "fetchData (spending_reply rs) = Inl e"
  shows "chart_instances (init p rs s) = chart_instances s"
    and "charts (init p rs s) = charts s"
    and "GET (apiBase @ ''/monthly-trends'')
           \<notin> set (drop (length (requests s)) (requests (init p rs s)))"
  by (simp_all add: init_connected[OF assms(1)] loadRecentTransactions_frame
      loadCalendar_frame loadCharts_failed[OF assms(2)] loadSummary_frame start_frame
      GET_def apiBase_def)







section \<open>The category select\<close>


lemma index_of_Some: "index_of v xs = Some i \<Longrightarrow> i < length xs \<and> fst (xs ! i) = v"
proof (induction xs arbitrary: i)
  case Nil
  then show ?case by simp
next
  case (Cons x xs)
  show ?case
  proof (cases "fst x = v")
    case True
    with Cons.prems show ?thesis by simp
  next
    case False
    with Cons.prems obtain j where j: "index_of v xs = Some j" "i = Suc j" by auto
    with Cons.IH[OF j(1)] show ?thesis by simp
  qed
qed

lemma select_value_set_value:
  "select_value (set_value v sel) = v \<or> select_value (set_value v sel) = []"
  by (cases "index_of v (sel_options sel)")
     (auto simp: select_value_def set_value_def dest: index_of_Some)

lemma select_value_set_empty: "select_value (set_value [] sel) = []"
  using select_value_set_value[of "[]" sel] by simp

lemma trim_Nil: "trim [] = []"
  by (simp add: trim_def)

lemma select_value_inserted:
  assumes "sel_options sel \<noteq> []"
  shows "select_value
           (sel\<lparr>sel_options := insertBefore_last (x, y) (sel_options sel),
                sel_index := Some (length (sel_options sel) - 1)\<rparr>) = x"
proof -
  let ?xs = "sel_options sel"
  have "length (butlast ?xs) = length ?xs - 1" by simp
  then have "(butlast ?xs @ [(x, y), last ?xs]) ! (length ?xs - 1) = (x, y)"
    by (metis nth_append_length)
  moreover have "length ?xs - 1 < length (butlast ?xs @ [(x, y), last ?xs])" by simp
  ultimately show ?thesis
    using assms by (simp add: select_value_def insertBefore_last_def)
qed

lemma sentinel_nonempty: "NEW_CATEGORY \<noteq> []"
  by (simp add: NEW_CATEGORY_def)

lemma chosen_sentinel_options:
  "select_value sel = NEW_CATEGORY \<Longrightarrow> sel_options sel \<noteq> []"
  using sentinel_nonempty by (auto simp: select_value_def split: option.splits if_splits)

text \<open>
  Claim C9, as amended. The change handler leaves the select alone unless the sentinel is
  chosen. When it is, a prompted name that is not blank is installed, trimmed, as the
  selected value; a dismissed or blank prompt resets the value to the empty string. So
  the value after the handler is not the sentinel, unless the name typed into the prompt
  is the sentinel's own text. A form whose category is the empty string passes the
  validation of the submit handler, which sends the append request.
\<close>

theorem category_change_value:
  "(select_value sel \<noteq> NEW_CATEGORY \<longrightarrow> category_change answer sel = sel)
   \<and> (select_value sel = NEW_CATEGORY \<longrightarrow>
        (\<forall>a. answer = Some a \<and> trim a \<noteq> [] \<longrightarrow>
           select_value (category_change answer sel) = trim a)
        \<and> ((answer = None \<or> (\<exists>a. answer = Some a \<and> trim a = [])) \<longrightarrow>
           select_value (category_change answer sel) = []))
   \<and> ((\<forall>a. answer = Some a \<longrightarrow> trim a \<noteq> NEW_CATEGORY) \<longrightarrow>
        select_value (category_change answer sel) \<noteq> NEW_CATEGORY)
   \<and> (select_value (category page) = [] \<longrightarrow>
        submit_begin page =
          Pending
            (page\<lparr>submitBtn :=
                    map_option (\<lambda>b. b\<lparr>btn_disabled := True, btn_html := busy_html\<rparr>)
                      (submitBtn page),
                  form_requests :=
                    form_requests page
                    @ [\<lparr>req_method = ''POST'', req_url = append_url,
                        req_body = Some (formData page)\<rparr>]\<rparr>))"
proof -
  have 1: "category_change answer sel = sel" if "select_value sel \<noteq> NEW_CATEGORY"
    using that by (simp add: category_change_def)
  have 2: "select_value (category_change answer sel) = trim a"
    if "select_value sel = NEW_CATEGORY" "answer = Some a" "trim a \<noteq> []" for a
  proof -
    from that(3) have "a \<noteq> []" using trim_Nil by auto
    with that select_value_inserted[OF chosen_sentinel_options[OF that(1)], of "trim a" "trim a"]
    show ?thesis by (simp add: category_change_def)
  qed
  have 3: "select_value (category_change answer sel) = []"
    if "select_value sel = NEW_CATEGORY" "answer = None \<or> (\<exists>a. answer = Some a \<and> trim a = [])"
    using that by (auto simp: category_change_def select_value_set_empty)
  have 4: "select_value (category_change answer sel) \<noteq> NEW_CATEGORY"
    if h: "\<forall>a. answer = Some a \<longrightarrow> trim a \<noteq> NEW_CATEGORY"
  proof (cases "select_value sel = NEW_CATEGORY")
    case False
    with 1 show ?thesis by simp
  next
    case True
    show ?thesis
    proof (cases "answer = None \<or> (\<exists>a. answer = Some a \<and> trim a = [])")
      case True
      from 3[OF \<open>select_value sel = NEW_CATEGORY\<close> this] sentinel_nonempty
      show ?thesis by simp
    next
      case False
      then obtain a where a: "answer = Some a" "trim a \<noteq> []" by auto
      from 2[OF True a] h a(1) show ?thesis by simp
    qed
  qed
  have 5: "submit_begin page =
          Pending
            (page\<lparr>submitBtn :=
                    map_option (\<lambda>b. b\<lparr>btn_disabled := True, btn_html := busy_html\<rparr>)
                      (submitBtn page),
                  form_requests :=
                    form_requests page
                    @ [\<lparr>req_method = ''POST'', req_url = append_url,
                        req_body = Some (formData page)\<rparr>]\<rparr>)"
    if "select_value (category page) = []"
    using that sentinel_nonempty by (simp add: submit_begin_def)
  from 1 2 3 4 5 show ?thesis by blast
qed


lemmas form_eval =
  picked_def loaded_form_def populate_def choose_option_def newOption_def NEW_CATEGORY_def
  select_value_def category_change_def insertBefore_last_def set_value_def

lemma trim_sentinel: "trim ''NEW_CATEGORY'' = ''NEW_CATEGORY''"
  by (simp add: trim_def WhiteSpace_def)

text \<open>
  Claim C9 as stated says that the value is never the sentinel after the handler. With the
  sentinel chosen and \<open>NEW_CATEGORY\<close> typed into the prompt, it is.
\<close>

theorem sentinel_typed_into_prompt:
  "select_value (category (picked 3)) = NEW_CATEGORY
   \<and> select_value (category_change (Some ''NEW_CATEGORY'') (category (picked 3)))
       = NEW_CATEGORY"
  by (simp add: form_eval trim_sentinel)

text \<open>The sentinel chosen, with three answers to the prompt; and another option chosen.\<close>

theorem category_change_value_witness:
  "select_value (category (picked 3)) = NEW_CATEGORY
   \<and> select_value (category_change (Some '' Travel '') (category (picked 3))) = ''Travel''
   \<and> select_value (category_change None (category (picked 3))) = []
   \<and> select_value (category_change (Some ''   '') (category (picked 3))) = []
   \<and> select_value (category_change (Some ''x'') (category (picked 1))) = ''Food''"
proof -
  have s: "select_value (category (picked 3)) = NEW_CATEGORY"
    and f: "select_value (category (picked 1)) \<noteq> NEW_CATEGORY"
    "select_value (category (picked 1)) = ''Food''"
    by (simp_all add: form_eval)
  have t: "trim '' Travel '' = ''Travel''" "trim ''   '' = []"
    by (simp_all add: trim_def WhiteSpace_def)
  from category_change_value[of "category (picked 3)" "Some '' Travel ''" loaded_form]
    category_change_value[of "category (picked 3)" None loaded_form]
    category_change_value[of "category (picked 3)" "Some ''   ''" loaded_form]
    category_change_value[of "category (picked 1)" "Some ''x''" loaded_form]
    s f t
  show ?thesis by simp
qed

section \<open>The submit handler and the list of categories\<close>


text \<open>
  Claim C6. When the category of the form is the sentinel at submission, the handler
  stops at the validation: the message area of the page shows the error
  \<open>Please select a valid category\<close>, and no request is sent, whatever the server would
  have answered.
\<close>

theorem sentinel_submission_rejected:
  assumes "select_value (category page) = NEW_CATEGORY" and "messageDiv page = Some m"
  shows "submit_begin page =
           Rejected (page\<lparr>messageDiv :=
             Some \<lparr>msg_text = ''Please select a valid category'',
                   msg_class = ''message error''\<rparr>\<rparr>)
       \<and> messageDiv (submit p r page) =
           Some \<lparr>msg_text = ''Please select a valid category'', msg_class = ''message error''\<rparr>
       \<and> form_requests (submit p r page) = form_requests page"
  using assms by (simp add: submit_def submit_begin_def showMessage_def)

text \<open>
  The loaded form with the sentinel (the option at position 3) chosen.
\<close>

theorem sentinel_submission_rejected_witness:
  "select_value (category (picked 3)) = NEW_CATEGORY
   \<and> messageDiv (picked 3) = Some \<lparr>msg_text = [], msg_class = ''message''\<rparr>
   \<and> messageDiv (submit viewer_utc (Response 200 (Some (True, ''Added''))) (picked 3)) =
       Some \<lparr>msg_text = ''Please select a valid category'', msg_class = ''message error''\<rparr>
   \<and> form_requests (submit viewer_utc (Response 200 (Some (True, ''Added''))) (picked 3)) = []"
proof -
  have s: "select_value (category (picked 3)) = NEW_CATEGORY"
    and m: "messageDiv (picked 3) = Some \<lparr>msg_text = [], msg_class = ''message''\<rparr>"
    and r: "form_requests (picked 3) = []"
    by (simp_all add: form_eval)
  from sentinel_submission_rejected[OF s m, of viewer_utc "Response 200 (Some (True, ''Added''))"]
    s m r
  show ?thesis by simp
qed

lemma submit_end_button:
  "submitBtn (submit_end p r page) =
     map_option (\<lambda>b. b\<lparr>btn_disabled := False, btn_html := ''Add Transaction''\<rparr>)
       (submitBtn page)"
  by (auto simp: submit_end_def Let_def showMessage_def setTodayDate_def form_reset_def
      split: response.splits option.splits prod.splits)

text \<open>
  Claim C8. A submission that passes the validation disables the submit button of the page
  and gives it the busy indicator while the request is pending; whatever the outcome of
  the request (success, failure reported by the server, no answer or no JSON), the button
  is enabled again with the label \<open>Add Transaction\<close>, which is its original state when that
  is the label it had.
\<close>

theorem submit_button_reenabled:
  assumes "select_value (category page) \<noteq> NEW_CATEGORY" and "submitBtn page = Some b"
  shows "(\<exists>waiting. submit_begin page = Pending waiting
            \<and> submitBtn waiting = Some (b\<lparr>btn_disabled := True, btn_html := busy_html\<rparr>)
            \<and> submit p r page = submit_end p r waiting)
       \<and> submitBtn (submit p r page) =
           Some (b\<lparr>btn_disabled := False, btn_html := ''Add Transaction''\<rparr>)
       \<and> (btn_html b = ''Add Transaction'' \<and> \<not> btn_disabled b \<longrightarrow>
            submitBtn (submit p r page) = Some b)"
  using assms by (simp add: submit_def submit_begin_def submit_end_button)

text \<open>
  The loaded form with \<open>Food\<close> chosen, and the three outcomes of the request.
\<close>

theorem submit_button_reenabled_witness:
  "select_value (category (picked 1)) \<noteq> NEW_CATEGORY
   \<and> submitBtn (picked 1) = Some \<lparr>btn_disabled = False, btn_html = ''Add Transaction''\<rparr>
   \<and> submitBtn (submit viewer_utc NetworkError (picked 1)) =
       Some \<lparr>btn_disabled = False, btn_html = ''Add Transaction''\<rparr>
   \<and> submitBtn (submit viewer_utc (Response 200 (Some (True, ''Added''))) (picked 1)) =
       Some \<lparr>btn_disabled = False, btn_html = ''Add Transaction''\<rparr>
   \<and> submitBtn (submit viewer_utc (Response 400 (Some (False, ''Bad amount''))) (picked 1)) =
       Some \<lparr>btn_disabled = False, btn_html = ''Add Transaction''\<rparr>"
proof -
  have s: "select_value (category (picked 1)) \<noteq> NEW_CATEGORY"
    and b: "submitBtn (picked 1) = Some \<lparr>btn_disabled = False, btn_html = ''Add Transaction''\<rparr>"
    by (simp_all add: form_eval)
  from submit_button_reenabled[OF s b, of viewer_utc NetworkError]
    submit_button_reenabled[OF s b, of viewer_utc "Response 200 (Some (True, ''Added''))"]
    submit_button_reenabled[OF s b, of viewer_utc "Response 400 (Some (False, ''Bad amount''))"]
    s b
  show ?thesis by simp
qed

subsection \<open>The position of the sentinel option\<close>










section \<open>The requests that are sent\<close>

text \<open>
  Every request that the model sends, from the dashboard or from the form, goes to one of
  the URLs listed in \<open>client_urls\<close>.
\<close>


lemma GET_url: "req_url (GET u) = u"
  by (simp add: GET_def)

lemma init_requests_urls:
  "req_url ` set (requests (init p rs s)) \<subseteq> req_url ` set (requests s) \<union> set client_urls"
proof (cases "testConnection (test_reply rs)")
  case (Some e)
  then show ?thesis
    by (auto simp: init_def Let_def showError_def console_error_def send_def showLoading_def
        GET_url client_urls_def)
next
  case None
  let ?s0 = "loadSummary p (summary_reply rs) (send (GET (apiBase @ ''/test'')) (showLoading s))"
  show ?thesis
    using loadCharts_requests[of "spending_reply rs" "trends_reply rs" ?s0]
    by (auto simp: init_connected[OF None] loadRecentTransactions_frame loadCalendar_frame
        loadSummary_frame start_frame GET_url client_urls_def)
qed

lemma reloadData_requests_urls:
  "req_url ` set (requests (reloadData p r rs s))
     \<subseteq> req_url ` set (requests s) \<union> set client_urls"
proof -
  let ?s1 = "send (GET (apiBase @ ''/reload-data'')) s"
  have 1: "req_url ` set (requests ?s1) \<subseteq> req_url ` set (requests s) \<union> set client_urls"
    by (auto simp: send_def GET_url client_urls_def)
  have "reloadData p r rs s = ?s1
      \<or> reloadData p r rs s = console_error ''Error reloading data:'' ?s1
      \<or> reloadData p r rs s = init p rs ?s1"
    by (auto simp: reloadData_def Let_def split: sum.splits)
  then show ?thesis
  proof (elim disjE)
    assume "reloadData p r rs s = ?s1"
    with 1 show ?thesis by simp
  next
    assume "reloadData p r rs s = console_error ''Error reloading data:'' ?s1"
    with 1 show ?thesis by (simp add: console_error_def)
  next
    assume "reloadData p r rs s = init p rs ?s1"
    with 1 init_requests_urls[of p rs ?s1] show ?thesis by (simp only:) blast
  qed
qed

lemma form_requests_urls:
  "req_url ` set (form_requests (run_form_event p e page))
     \<subseteq> req_url ` set (form_requests page) \<union> set client_urls"
proof (cases e)
  case (CategoriesLoaded r)
  then show ?thesis
    by (auto simp: loadCategories_def Let_def GET_url client_urls_def
        split: response.splits option.splits prod.splits)
next
  case (OptionChosen i answer)
  then show ?thesis by simp
next
  case (Submitted r)
  then show ?thesis
    by (auto simp: submit_def submit_begin_def submit_end_def Let_def showMessage_def
        setTodayDate_def form_reset_def client_urls_def
        split: response.splits option.splits prod.splits)
qed

end
